theory Spec2Isabelle
  imports Complex_Main "HOL-Library.Sublist" "HOL-Library.Multiset"
begin

section \<open>Values, errors and the runtime the module calls into\<close>

text \<open>
  The front-matter header of a post is free-form YAML, so a metadata field can hold any
  JavaScript value. The module tells three kinds of value apart: the nullish ones
  (\<^verbatim>\<open>undefined\<close>, \<^verbatim>\<open>null\<close>), strings, and everything else (numbers, booleans,
  \<^verbatim>\<open>Date\<close> objects, arrays, nested objects), kept abstract in \<open>'o\<close>.
\<close>

datatype 'o jsval = JUndefined | JNull | JString string | JOther 'o

text \<open>What a call can throw. The payload is the message.\<close>

datatype js_error = SystemError string | YAMLException string | TypeError string

text \<open>
  \<^verbatim>\<open>PostMetadata\<close> is built by the object spread \<^verbatim>\<open>{ ...data, slug }\<close>: an object seen
  through its own enumerable properties, a map from property names to values. A property
  that is absent reads as \<^verbatim>\<open>undefined\<close>.
\<close>

type_synonym 'o PostMetadata = "string \<rightharpoonup> 'o jsval"

record 'o Post =
  metadata :: "'o PostMetadata"
  content :: string

text \<open>
  The library calls of \<^verbatim>\<open>lib/posts.ts\<close>, taken as parameters: \<^verbatim>\<open>fs.readdirSync\<close>,
  \<^verbatim>\<open>fs.readFileSync\<close> (both throw on failure), \<^verbatim>\<open>path.join\<close>, gray-matter's
  \<^verbatim>\<open>matter\<close> (throws on a malformed header; returns \<^verbatim>\<open>data\<close> and \<^verbatim>\<open>content\<close>), and
  \<^verbatim>\<open>new Date(v).getTime()\<close>, whose result is an integral number of milliseconds or
  \<^verbatim>\<open>NaN\<close> (here \<open>None\<close>); the \<^verbatim>\<open>Date\<close> constructor throws a \<^verbatim>\<open>TypeError\<close> on an object
  that has no primitive conversion. Each is a function of its arguments.
\<close>

record 'o runtime =
  readdirSync :: "string \<Rightarrow> js_error + string list"
  readFileSync :: "string \<Rightarrow> js_error + string"
  path_join :: "string \<Rightarrow> string \<Rightarrow> string"
  matter :: "string \<Rightarrow> js_error + ('o PostMetadata \<times> string)"
  Date_getTime :: "'o jsval \<Rightarrow> js_error + int option"

section \<open>Language operators and array methods\<close>

text \<open>\<^verbatim>\<open>s.endsWith(t)\<close>.\<close>

definition endsWith :: "string \<Rightarrow> string \<Rightarrow> bool" where
  "endsWith s t = (length t \<le> length s \<and> drop (length s - length t) s = t)"

text \<open>
  \<^verbatim>\<open>filePath.replace(/\.md$/, "")\<close>: the pattern is anchored at the end of the string,
  so the only possible match is a final \<^verbatim>\<open>.md\<close>, which is removed.
\<close>

definition replace_md_suffix :: "string \<Rightarrow> string" where
  "replace_md_suffix filePath =
     (if endsWith filePath ''.md'' then take (length filePath - 3) filePath else filePath)"

text \<open>\<^verbatim>\<open>v ?? d\<close> on a property read: \<open>None\<close> is the absent property.\<close>

fun nullish_or :: "'o jsval option \<Rightarrow> 'o jsval \<Rightarrow> 'o jsval" where
  "nullish_or None d = d"
| "nullish_or (Some JUndefined) d = d"
| "nullish_or (Some JNull) d = d"
| "nullish_or (Some v) d = v"

text \<open>\<^verbatim>\<open>n || d\<close> on a number: \<^verbatim>\<open>NaN\<close> and zero are falsy.\<close>

fun number_or :: "int option \<Rightarrow> int \<Rightarrow> int" where
  "number_or None d = d"
| "number_or (Some n) d = (if n = 0 then d else n)"

text \<open>
  \<^verbatim>\<open>try { ... } catch { ... }\<close>: the handler runs on whatever the body throws.
\<close>

definition try_catch :: "js_error + 'a \<Rightarrow> (js_error \<Rightarrow> js_error + 'a) \<Rightarrow> js_error + 'a" where
  "try_catch body handler = (case body of Inl e \<Rightarrow> handler e | Inr v \<Rightarrow> Inr v)"

text \<open>
  \<^verbatim>\<open>xs.map(f)\<close> and \<^verbatim>\<open>xs.filter(f)\<close> with a callback that may throw: elements are
  visited left to right and the first exception ends the call.
\<close>

fun Array_map :: "('a \<Rightarrow> js_error + 'b) \<Rightarrow> 'a list \<Rightarrow> js_error + 'b list" where
  "Array_map f [] = Inr []"
| "Array_map f (x # xs) =
     (case f x of
        Inl e \<Rightarrow> Inl e
      | Inr y \<Rightarrow> (case Array_map f xs of Inl e \<Rightarrow> Inl e | Inr ys \<Rightarrow> Inr (y # ys)))"

fun Array_filter :: "('a \<Rightarrow> js_error + bool) \<Rightarrow> 'a list \<Rightarrow> js_error + 'a list" where
  "Array_filter f [] = Inr []"
| "Array_filter f (x # xs) =
     (case f x of
        Inl e \<Rightarrow> Inl e
      | Inr keep \<Rightarrow>
          (case Array_filter f xs of
             Inl e \<Rightarrow> Inl e
           | Inr ys \<Rightarrow> Inr (if keep then x # ys else ys)))"

text \<open>
  \<^verbatim>\<open>xs.sort(cmp)\<close> with a comparator that may throw: the sort is stable,
  \<open>cmp a b \<le> 0\<close> leaves \<open>a\<close> before \<open>b\<close>, and an exception of the comparator ends the
  sort. An array of fewer than two elements is returned without a call of the comparator;
  in a longer array every element takes part in some comparison. The comparator of
  \<^verbatim>\<open>getPosts\<close> subtracts two time values, integers of magnitude at most 8.64e15, so the
  sign of the double-precision difference is the sign of the integer difference.
\<close>

fun sort_insert :: "('a \<Rightarrow> 'a \<Rightarrow> js_error + int) \<Rightarrow> 'a \<Rightarrow> 'a list \<Rightarrow> js_error + 'a list" where
  "sort_insert cmp x [] = Inr [x]"
| "sort_insert cmp x (y # ys) =
     (case cmp x y of
        Inl e \<Rightarrow> Inl e
      | Inr c \<Rightarrow>
          if c \<le> 0 then Inr (x # y # ys)
          else (case sort_insert cmp x ys of Inl e \<Rightarrow> Inl e | Inr zs \<Rightarrow> Inr (y # zs)))"

fun Array_sort :: "('a \<Rightarrow> 'a \<Rightarrow> js_error + int) \<Rightarrow> 'a list \<Rightarrow> js_error + 'a list" where
  "Array_sort cmp [] = Inr []"
| "Array_sort cmp (x # xs) =
     (case Array_sort cmp xs of Inl e \<Rightarrow> Inl e | Inr ys \<Rightarrow> sort_insert cmp x ys)"

text \<open>
  A JavaScript number: \<^verbatim>\<open>NaN\<close>, an infinity, or a finite value (the finite doubles are
  among the reals; negative zero is zero). \<open>truthy\<close> is the test of \<^verbatim>\<open>if (limit)\<close>:
  zero and \<^verbatim>\<open>NaN\<close> are falsy.
\<close>

datatype number = NaN | PosInfinity | NegInfinity | Finite real

fun truthy :: "number \<Rightarrow> bool" where
  "truthy NaN = False"
| "truthy PosInfinity = True"
| "truthy NegInfinity = True"
| "truthy (Finite x) = (x \<noteq> 0)"

text \<open>The integer part of a finite number: rounding toward zero.\<close>

definition truncate_toward_zero :: "real \<Rightarrow> int" where
  "truncate_toward_zero x = (if 0 \<le> x then \<lfloor>x\<rfloor> else \<lceil>x\<rceil>)"

text \<open>
  \<^verbatim>\<open>xs.slice(0, end)\<close>: the end is made integral (\<^verbatim>\<open>NaN\<close> becomes 0, a fraction is
  truncated); a negative end counts from the end of the array, and the result stops at
  the end of the array.
\<close>

fun Array_slice0 :: "'a list \<Rightarrow> number \<Rightarrow> 'a list" where
  "Array_slice0 xs NaN = take 0 xs"
| "Array_slice0 xs PosInfinity = take (length xs) xs"
| "Array_slice0 xs NegInfinity = take 0 xs"
| "Array_slice0 xs (Finite x) =
     (let len = int (length xs);
          stop = truncate_toward_zero x;
          final = (if stop < 0 then max (len + stop) 0 else min stop len)
      in take (nat final) xs)"

text \<open>\<^verbatim>\<open>s.includes(q)\<close>: \<open>q\<close> occurs in \<open>s\<close> at some position.\<close>

fun String_includes :: "string \<Rightarrow> string \<Rightarrow> bool" where
  "String_includes [] q = (q = [])"
| "String_includes (c # s) q = (prefix q (c # s) \<or> String_includes s q)"

section \<open>The data layer: \<^verbatim>\<open>lib/posts.ts\<close>\<close>

definition getPostBySlug :: "'o runtime \<Rightarrow> string \<Rightarrow> string \<Rightarrow> js_error + 'o Post option" where
  "getPostBySlug rt rootDir slug =
     try_catch
       (let filePath = path_join rt rootDir (slug @ ''.md'') in
        case readFileSync rt filePath of
          Inl e \<Rightarrow> Inl e
        | Inr fileContents \<Rightarrow>
            (case matter rt fileContents of
               Inl e \<Rightarrow> Inl e
             | Inr (data, body) \<Rightarrow>
                 Inr (Some \<lparr>metadata = data(''slug'' \<mapsto> JString slug), content = body\<rparr>)))
       (\<lambda>_. Inr None)"

definition getPostMetadata :: "'o runtime \<Rightarrow> string \<Rightarrow> string \<Rightarrow> js_error + 'o PostMetadata" where
  "getPostMetadata rt rootDir filePath =
     (let slug = replace_md_suffix filePath in
      case readFileSync rt (path_join rt rootDir filePath) of
        Inl e \<Rightarrow> Inl e
      | Inr fileContents \<Rightarrow>
          (case matter rt fileContents of
             Inl e \<Rightarrow> Inl e
           | Inr (data, body) \<Rightarrow> Inr (data(''slug'' \<mapsto> JString slug))))"

text \<open>
  The sort key \<^verbatim>\<open>new Date(p.publishedAt ?? "").getTime() || 0\<close> and the comparator
  \<^verbatim>\<open>(a, b) => key(b) - key(a)\<close>.
\<close>

definition publishedAt_key :: "'o runtime \<Rightarrow> 'o PostMetadata \<Rightarrow> js_error + int" where
  "publishedAt_key rt p =
     (case Date_getTime rt (nullish_or (p ''publishedAt'') (JString '''')) of
        Inl e \<Rightarrow> Inl e
      | Inr t \<Rightarrow> Inr (number_or t 0))"

definition newest_first ::
  "'o runtime \<Rightarrow> 'o PostMetadata \<Rightarrow> 'o PostMetadata \<Rightarrow> js_error + int" where
  "newest_first rt a b =
     (case publishedAt_key rt b of
        Inl e \<Rightarrow> Inl e
      | Inr kb \<Rightarrow> (case publishedAt_key rt a of Inl e \<Rightarrow> Inl e | Inr ka \<Rightarrow> Inr (kb - ka)))"

text \<open>\<^verbatim>\<open>limit\<close> is the optional number argument; \<open>None\<close> is \<^verbatim>\<open>undefined\<close>.\<close>

definition getPosts ::
  "'o runtime \<Rightarrow> string \<Rightarrow> number option \<Rightarrow> js_error + 'o PostMetadata list" where
  "getPosts rt rootDir limit =
     (case readdirSync rt rootDir of
        Inl e \<Rightarrow> Inl e
      | Inr files \<Rightarrow>
          (case Array_map (getPostMetadata rt rootDir)
                  (filter (\<lambda>file. endsWith file ''.md'') files) of
             Inl e \<Rightarrow> Inl e
           | Inr metas \<Rightarrow>
               (case Array_sort (newest_first rt) metas of
                  Inl e \<Rightarrow> Inl e
                | Inr posts \<Rightarrow>
                    (case limit of
                       None \<Rightarrow> Inr posts
                     | Some n \<Rightarrow> if truthy n then Inr (Array_slice0 posts n) else Inr posts))))"

section \<open>The search component: \<^verbatim>\<open>PostsWithSearch\<close>\<close>

text \<open>
  The filter callback \<^verbatim>\<open>post.title?.toLowerCase().includes(query.toLowerCase())\<close>.
  The optional chain stops at a nullish title and yields \<^verbatim>\<open>undefined\<close>, which the
  filter reads as false; a title that is neither nullish nor a string has no
  \<^verbatim>\<open>toLowerCase\<close> method and the call throws. \<^verbatim>\<open>String.prototype.toLowerCase\<close> is a
  parameter.
\<close>

fun title_matches :: "(string \<Rightarrow> string) \<Rightarrow> string \<Rightarrow> 'o jsval option \<Rightarrow> js_error + bool" where
  "title_matches toLowerCase query None = Inr False"
| "title_matches toLowerCase query (Some JUndefined) = Inr False"
| "title_matches toLowerCase query (Some JNull) = Inr False"
| "title_matches toLowerCase query (Some (JString t)) =
     Inr (String_includes (toLowerCase t) (toLowerCase query))"
| "title_matches toLowerCase query (Some (JOther v)) =
     Inl (TypeError ''post.title.toLowerCase is not a function'')"

definition filtered :: "(string \<Rightarrow> string) \<Rightarrow> 'o PostMetadata list \<Rightarrow> string \<Rightarrow> js_error + 'o PostMetadata list" where
  "filtered toLowerCase posts query =
     Array_filter (\<lambda>post. title_matches toLowerCase query (post ''title'')) posts"

section \<open>Notions of the specification\<close>

text \<open>
  The timestamp parsed from \<^verbatim>\<open>publishedAt\<close>: there is none when the field is missing
  (absent or nullish) and none when the \<^verbatim>\<open>Date\<close> built-in cannot parse its value;
  parsing throws where the \<^verbatim>\<open>Date\<close> constructor does.
\<close>

fun timestamp_of :: "'o runtime \<Rightarrow> 'o jsval option \<Rightarrow> js_error + int option" where
  "timestamp_of rt None = Inr None"
| "timestamp_of rt (Some JUndefined) = Inr None"
| "timestamp_of rt (Some JNull) = Inr None"
| "timestamp_of rt (Some v) = Date_getTime rt v"

definition parsed_publishedAt :: "'o runtime \<Rightarrow> 'o PostMetadata \<Rightarrow> js_error + int option" where
  "parsed_publishedAt rt p = timestamp_of rt (p ''publishedAt'')"

text \<open>
  A list of \<open>k\<close> items has at most \<open>n\<close> items, for a number \<open>n\<close>; and \<open>n\<close> is a positive
  number.
\<close>

fun at_most :: "nat \<Rightarrow> number \<Rightarrow> bool" where
  "at_most k NaN = False"
| "at_most k PosInfinity = True"
| "at_most k NegInfinity = False"
| "at_most k (Finite x) = (real k \<le> x)"

fun positive :: "number \<Rightarrow> bool" where
  "positive NaN = False"
| "positive PosInfinity = True"
| "positive NegInfinity = False"
| "positive (Finite x) = (0 < x)"

text \<open>
  A title contains the query as a case-insensitive substring: the title is a string and,
  once both are lowercased, the query is a contiguous part of it.
\<close>

fun title_contains :: "(string \<Rightarrow> string) \<Rightarrow> string \<Rightarrow> 'o jsval option \<Rightarrow> bool" where
  "title_contains toLowerCase query (Some (JString t)) =
     sublist (toLowerCase query) (toLowerCase t)"
| "title_contains toLowerCase query v = False"

text \<open>
  The declared type of a title is \<^verbatim>\<open>string | undefined\<close>: absent, nullish or a
  string.
\<close>

fun title_typed :: "'o jsval option \<Rightarrow> bool" where
  "title_typed (Some (JOther v)) = False"
| "title_typed v = True"

text \<open>A titled post: its title is a string.\<close>

fun title_is_string :: "'o jsval option \<Rightarrow> bool" where
  "title_is_string (Some (JString t)) = True"
| "title_is_string v = False"

text \<open>
  Modelled from the spec: gray-matter's parser is a dependency whose code is not in the
  repository. The spec's parser contract (4.1): a file that does not begin with the
  header marker (three dashes) is all body, with an empty metadata mapping; otherwise the
  header block is parsed, here by \<open>parse_header\<close>, which may fail.
\<close>

definition matter_spec ::
  "(string \<Rightarrow> js_error + ('o PostMetadata \<times> string)) \<Rightarrow> string \<Rightarrow> js_error + ('o PostMetadata \<times> string)" where
  "matter_spec parse_header file =
     (if prefix ''---'' file then parse_header file else Inr (Map.empty, file))"

section \<open>An example content store\<close>

text \<open>
  Four directories: \<^verbatim>\<open>data\<close> holds the posts \<^verbatim>\<open>a.md\<close>, \<^verbatim>\<open>b.md\<close>, \<^verbatim>\<open>c.md\<close>;
  \<^verbatim>\<open>drafts\<close> holds a post with a malformed header; \<^verbatim>\<open>notes\<close> holds a file without a
  header, a file that is not a post, and a post whose header sets \<^verbatim>\<open>slug\<close> itself;
  \<^verbatim>\<open>archive\<close> holds a post dated before 1970 and an undated post.
  Values other than strings are \<^verbatim>\<open>Date\<close> objects, given by their time value (the YAML
  parser turns an unquoted date into a \<^verbatim>\<open>Date\<close>).
\<close>

definition a_md :: string where
  "a_md = ''---\<newline>title: Alpha\<newline>publishedAt: 2025-01-01\<newline>---\<newline>First post''"

definition b_md :: string where
  "b_md = ''---\<newline>title: Beta\<newline>publishedAt: 2025-03-01\<newline>---\<newline>Second post''"

definition c_md :: string where
  "c_md = ''---\<newline>title: Gamma\<newline>---\<newline>Undated post''"

definition broken_md :: string where
  "broken_md = ''---\<newline>title: [unclosed\<newline>---\<newline>Text''"

definition plain_md :: string where
  "plain_md = ''Just text, no header''"

definition slugged_md :: string where
  "slugged_md = ''---\<newline>title: Git notes\<newline>slug: custom\<newline>---\<newline>Body''"

definition old_md :: string where
  "old_md = ''---\<newline>title: Old\<newline>publishedAt: 1960-01-01\<newline>---\<newline>Reprint''"

definition undated_md :: string where
  "undated_md = ''---\<newline>title: Undated\<newline>---\<newline>No date''"

definition example_readdirSync :: "string \<Rightarrow> js_error + string list" where
  "example_readdirSync dir =
     (if dir = ''data'' then Inr [''a.md'', ''b.md'', ''c.md'']
      else if dir = ''drafts'' then Inr [''broken.md'']
      else if dir = ''notes'' then Inr [''plain.md'', ''readme.txt'', ''slugged.md'']
      else if dir = ''archive'' then Inr [''old.md'', ''undated.md'']
      else Inl (SystemError ''ENOENT: no such file or directory, scandir''))"

definition example_readFileSync :: "string \<Rightarrow> js_error + string" where
  "example_readFileSync file =
     (if file = ''data/a.md'' then Inr a_md
      else if file = ''data/b.md'' then Inr b_md
      else if file = ''data/c.md'' then Inr c_md
      else if file = ''drafts/broken.md'' then Inr broken_md
      else if file = ''notes/plain.md'' then Inr plain_md
      else if file = ''notes/slugged.md'' then Inr slugged_md
      else if file = ''archive/old.md'' then Inr old_md
      else if file = ''archive/undated.md'' then Inr undated_md
      else Inl (SystemError ''ENOENT: no such file or directory, open''))"

definition example_matter :: "string \<Rightarrow> js_error + (int PostMetadata \<times> string)" where
  "example_matter file =
     (if file = a_md then
        Inr ([''title'' \<mapsto> JString ''Alpha'', ''publishedAt'' \<mapsto> JOther 1735689600000],
             ''First post'')
      else if file = b_md then
        Inr ([''title'' \<mapsto> JString ''Beta'', ''publishedAt'' \<mapsto> JOther 1740787200000],
             ''Second post'')
      else if file = c_md then Inr ([''title'' \<mapsto> JString ''Gamma''], ''Undated post'')
      else if file = broken_md then Inl (YAMLException ''unexpected end of the stream'')
      else if file = slugged_md then
        Inr ([''title'' \<mapsto> JString ''Git notes'', ''slug'' \<mapsto> JString ''custom''], ''Body'')
      else if file = old_md then
        Inr ([''title'' \<mapsto> JString ''Old'', ''publishedAt'' \<mapsto> JOther (- 315619200000)],
             ''Reprint'')
      else if file = undated_md then Inr ([''title'' \<mapsto> JString ''Undated''], ''No date'')
      else Inr (Map.empty, file))"

text \<open>
  \<^verbatim>\<open>new Date(v).getTime()\<close> on the values that occur in the example: a \<^verbatim>\<open>Date\<close> object
  gives its time value, and the empty string is not a date.
\<close>

fun example_getTime :: "int jsval \<Rightarrow> js_error + int option" where
  "example_getTime (JOther t) = Inr (Some t)"
| "example_getTime JNull = Inr (Some 0)"
| "example_getTime v = Inr None"

definition example_rt :: "int runtime" where
  "example_rt =
     \<lparr>readdirSync = example_readdirSync,
      readFileSync = example_readFileSync,
      path_join = (\<lambda>dir file. dir @ ''/'' @ file),
      matter = example_matter,
      Date_getTime = example_getTime\<rparr>"

text \<open>The metadata \<^verbatim>\<open>getPosts\<close> builds for the three posts of \<^verbatim>\<open>data\<close>.\<close>

definition meta_a :: "int PostMetadata" where
  "meta_a = [''title'' \<mapsto> JString ''Alpha'', ''publishedAt'' \<mapsto> JOther 1735689600000,
             ''slug'' \<mapsto> JString ''a'']"

definition meta_b :: "int PostMetadata" where
  "meta_b = [''title'' \<mapsto> JString ''Beta'', ''publishedAt'' \<mapsto> JOther 1740787200000,
             ''slug'' \<mapsto> JString ''b'']"

definition meta_c :: "int PostMetadata" where
  "meta_c = [''title'' \<mapsto> JString ''Gamma'', ''slug'' \<mapsto> JString ''c'']"

text \<open>The metadata \<^verbatim>\<open>getPosts\<close> builds for the two posts of \<^verbatim>\<open>notes\<close>.\<close>

definition meta_plain :: "int PostMetadata" where
  "meta_plain = [''slug'' \<mapsto> JString ''plain'']"

definition meta_slugged :: "int PostMetadata" where
  "meta_slugged = [''title'' \<mapsto> JString ''Git notes'', ''slug'' \<mapsto> JString ''slugged'']"

text \<open>The metadata \<^verbatim>\<open>getPosts\<close> builds for the two posts of \<^verbatim>\<open>archive\<close>.\<close>

definition meta_old :: "int PostMetadata" where
  "meta_old = [''title'' \<mapsto> JString ''Old'', ''publishedAt'' \<mapsto> JOther (- 315619200000),
               ''slug'' \<mapsto> JString ''old'']"

definition meta_undated :: "int PostMetadata" where
  "meta_undated = [''title'' \<mapsto> JString ''Undated'', ''slug'' \<mapsto> JString ''undated'']"

text \<open>
  A second store, with one directory of two posts. The header of \<^verbatim>\<open>odd.md\<close> gives
  \<^verbatim>\<open>publishedAt\<close> a mapping with the key \<^verbatim>\<open>toString\<close>: an object with no primitive
  conversion, the only value other than strings here, on which the \<^verbatim>\<open>Date\<close> constructor
  throws.
\<close>

definition odd_md :: string where
  "odd_md = ''---\<newline>publishedAt:\<newline>  toString: 1\<newline>---\<newline>Odd''"

definition odd_readFileSync :: "string \<Rightarrow> js_error + string" where
  "odd_readFileSync file =
     (if file = ''odd/odd.md'' then Inr odd_md
      else if file = ''odd/plain.md'' then Inr plain_md
      else Inl (SystemError ''ENOENT: no such file or directory, open''))"

fun odd_getTime :: "unit jsval \<Rightarrow> js_error + int option" where
  "odd_getTime (JOther u) = Inl (TypeError ''Cannot convert object to primitive value'')"
| "odd_getTime v = Inr None"

definition odd_rt :: "unit runtime" where
  "odd_rt =
     \<lparr>readdirSync = (\<lambda>dir. if dir = ''odd'' then Inr [''odd.md'', ''plain.md'']
                           else Inl (SystemError ''ENOENT: no such file or directory, scandir'')),
      readFileSync = odd_readFileSync,
      path_join = (\<lambda>dir file. dir @ ''/'' @ file),
      matter = (\<lambda>file. if file = odd_md then Inr ([''publishedAt'' \<mapsto> JOther ()], ''Odd'')
                        else Inr (Map.empty, file)),
      Date_getTime = odd_getTime\<rparr>"

text \<open>
  \<^verbatim>\<open>toLowerCase\<close> on ASCII text, and a list of posts for the search box: one has
  the query only in its summary, one has no title, one has the empty title.
\<close>

definition ascii_toLowerCase :: "string \<Rightarrow> string" where
  "ascii_toLowerCase s =
     map (\<lambda>c. case map_of (zip ''ABCDEFGHIJKLMNOPQRSTUVWXYZ'' ''abcdefghijklmnopqrstuvwxyz'') c of
                Some l \<Rightarrow> l
              | None \<Rightarrow> c) s"

definition search_posts :: "int PostMetadata list" where
  "search_posts =
     [[''title'' \<mapsto> JString ''Basic Git Workflow'', ''slug'' \<mapsto> JString ''git_gist''],
      [''title'' \<mapsto> JString ''Mongo DB'', ''summary'' \<mapsto> JString ''not git'',
       ''slug'' \<mapsto> JString ''mongo''],
      [''summary'' \<mapsto> JString ''untitled'', ''slug'' \<mapsto> JString ''draft''],
      [''title'' \<mapsto> JString [], ''slug'' \<mapsto> JString ''empty'']]"

section \<open>Sorting and truncation\<close>

text \<open>
  The comparator of \<^verbatim>\<open>getPosts\<close> returns exactly when the keys of both posts are
  defined, and then orders by key.
\<close>

lemma newest_first_Inr:
  "newest_first rt a b = Inr c \<longleftrightarrow>
     (\<exists>ka kb. publishedAt_key rt a = Inr ka \<and> publishedAt_key rt b = Inr kb \<and> c = kb - ka)"
  by (auto simp: newest_first_def split: sum.splits)

lemma sort_insert_mset:
  "sort_insert cmp x ys = Inr zs \<Longrightarrow> mset zs = add_mset x (mset ys)"
  by (induction ys arbitrary: zs) (auto split: sum.splits if_splits)

lemma Array_sort_mset: "Array_sort cmp xs = Inr ys \<Longrightarrow> mset ys = mset xs"
  by (induction xs arbitrary: ys) (auto split: sum.splits dest: sort_insert_mset)

lemma Array_sort_set: "Array_sort cmp xs = Inr ys \<Longrightarrow> set ys = set xs"
  using Array_sort_mset mset_eq_setD by blast

lemma Array_sort_length: "Array_sort cmp xs = Inr ys \<Longrightarrow> length ys = length xs"
  using Array_sort_mset mset_eq_length by blast

lemma sort_insert_defined:
  assumes "sort_insert (newest_first rt) x (y # ys) = Inr zs"
  shows "(\<exists>k. publishedAt_key rt x = Inr k) \<and> (\<exists>k. publishedAt_key rt y = Inr k)"
proof -
  from assms obtain c where "newest_first rt x y = Inr c"
    by (auto split: sum.splits)
  then show ?thesis
    by (auto simp: newest_first_Inr)
qed

text \<open>Where the sort of two or more posts returns, every key is defined.\<close>

lemma Array_sort_defined:
  assumes "Array_sort (newest_first rt) xs = Inr ys" and "2 \<le> length xs" and "p \<in> set xs"
  shows "\<exists>k. publishedAt_key rt p = Inr k"
  using assms
proof (induction xs arbitrary: ys p)
  case Nil
  then show ?case by simp
next
  case (Cons x xs)
  from Cons.prems(1) obtain zs where zs: "Array_sort (newest_first rt) xs = Inr zs"
    and ins: "sort_insert (newest_first rt) x zs = Inr ys"
    by (auto split: sum.splits)
  from Cons.prems(2) have "xs \<noteq> []" by auto
  with Array_sort_length [OF zs] obtain z zs' where z: "zs = z # zs'"
    by (cases zs) auto
  from ins [unfolded z] have "(\<exists>k. publishedAt_key rt x = Inr k) \<and> (\<exists>k. publishedAt_key rt z = Inr k)"
    by (rule sort_insert_defined)
  then have x: "\<exists>k. publishedAt_key rt x = Inr k"
    and first: "\<exists>k. publishedAt_key rt z = Inr k"
    by (rule conjunct1, rule conjunct2)
  show ?case
  proof (cases "p = x")
    case True
    with x show ?thesis by simp
  next
    case False
    with Cons.prems(3) have p: "p \<in> set xs" by simp
    show ?thesis
    proof (cases "2 \<le> length xs")
      case True
      from zs True p show ?thesis by (rule Cons.IH)
    next
      case False
      with \<open>xs \<noteq> []\<close> have "length xs = 1" by (cases xs) (auto simp: Suc_le_eq)
      with p have "xs = [p]" by (cases xs) auto
      with Array_sort_set [OF zs] z have "z = p" by auto
      with first show ?thesis by simp
    qed
  qed
qed

text \<open>
  Where every key is defined, the sort is the library's stable insertion sort on the
  negated key.
\<close>

lemma sort_insert_key:
  assumes "\<And>p. p \<in> set (x # ys) \<Longrightarrow> \<exists>k. publishedAt_key rt p = Inr k"
  shows "sort_insert (newest_first rt) x ys
    = Inr (insort_key (\<lambda>p. - projr (publishedAt_key rt p)) x ys)"
  using assms
proof (induction ys)
  case Nil
  then show ?case by simp
next
  case (Cons y ys)
  from Cons.prems obtain kx ky where k: "publishedAt_key rt x = Inr kx" "publishedAt_key rt y = Inr ky"
    by (meson list.set_intros)
  have "sort_insert (newest_first rt) x ys
    = Inr (insort_key (\<lambda>p. - projr (publishedAt_key rt p)) x ys)"
    by (rule Cons.IH, rule Cons.prems) auto
  moreover from k have "newest_first rt x y = Inr (ky - kx)"
    by (simp add: newest_first_def)
  ultimately show ?case
    using k by simp
qed

lemma Array_sort_key:
  assumes "\<And>p. p \<in> set xs \<Longrightarrow> \<exists>k. publishedAt_key rt p = Inr k"
  shows "Array_sort (newest_first rt) xs = Inr (sort_key (\<lambda>p. - projr (publishedAt_key rt p)) xs)"
  using assms
proof (induction xs)
  case Nil
  then show ?case by simp
next
  case (Cons x xs)
  have rest: "Array_sort (newest_first rt) xs
      = Inr (sort_key (\<lambda>p. - projr (publishedAt_key rt p)) xs)"
    by (rule Cons.IH, rule Cons.prems) simp
  have "sort_insert (newest_first rt) x (sort_key (\<lambda>p. - projr (publishedAt_key rt p)) xs)
      = Inr (insort_key (\<lambda>p. - projr (publishedAt_key rt p)) x
              (sort_key (\<lambda>p. - projr (publishedAt_key rt p)) xs))"
    by (rule sort_insert_key) (use Cons.prems in auto)
  with rest show ?case
    by (simp add: sort_key_def)
qed

lemma Array_sort_sorted:
  assumes "Array_sort (newest_first rt) xs = Inr ys"
  shows "sorted_wrt (\<lambda>a b. \<exists>ka kb. publishedAt_key rt a = Inr ka
      \<and> publishedAt_key rt b = Inr kb \<and> kb \<le> ka) ys"
proof (cases "2 \<le> length xs")
  case True
  have defined: "\<exists>k. publishedAt_key rt p = Inr k" if "p \<in> set xs" for p
    using assms True that by (rule Array_sort_defined)
  then have "Array_sort (newest_first rt) xs
      = Inr (sort_key (\<lambda>p. - projr (publishedAt_key rt p)) xs)"
    by (rule Array_sort_key)
  with assms have ys: "ys = sort_key (\<lambda>p. - projr (publishedAt_key rt p)) xs"
    by simp
  have "sorted (map (\<lambda>p. - projr (publishedAt_key rt p)) ys)"
    unfolding ys by (rule sorted_sort_key)
  then have "sorted_wrt (\<lambda>a b. projr (publishedAt_key rt b) \<le> projr (publishedAt_key rt a)) ys"
    by (simp add: sorted_map)
  then show ?thesis
  proof (rule sorted_wrt_mono_rel [rotated])
    fix a b
    assume "a \<in> set ys" "b \<in> set ys"
      and le: "projr (publishedAt_key rt b) \<le> projr (publishedAt_key rt a)"
    then have "a \<in> set xs" "b \<in> set xs"
      by (simp_all add: ys)
    then obtain ka kb where "publishedAt_key rt a = Inr ka" "publishedAt_key rt b = Inr kb"
      using defined by blast
    with le show "\<exists>ka kb. publishedAt_key rt a = Inr ka
      \<and> publishedAt_key rt b = Inr kb \<and> kb \<le> ka"
      by simp
  qed
next
  case False
  with Array_sort_length [OF assms] have "length ys \<le> 1" by simp
  then have "ys = [] \<or> (\<exists>y. ys = [y])"
    by (cases ys) auto
  then show ?thesis by auto
qed

text \<open>
  The sort throws exactly when there are two or more posts and the key of one of them
  is not defined.
\<close>

lemma Array_sort_throws:
  "(\<exists>e. Array_sort (newest_first rt) xs = Inl e) \<longleftrightarrow>
     2 \<le> length xs \<and> (\<exists>p\<in>set xs. \<exists>e. publishedAt_key rt p = Inl e)"
proof
  assume throws: "\<exists>e. Array_sort (newest_first rt) xs = Inl e"
  have long: "2 \<le> length xs"
  proof (rule ccontr)
    assume "\<not> 2 \<le> length xs"
    then have "xs = [] \<or> (\<exists>x. xs = [x])"
      by (cases xs) (auto simp: Suc_le_eq)
    with throws show False by auto
  qed
  have "\<exists>p\<in>set xs. \<exists>e. publishedAt_key rt p = Inl e"
  proof (rule ccontr)
    assume "\<not> (\<exists>p\<in>set xs. \<exists>e. publishedAt_key rt p = Inl e)"
    then have "\<exists>k. publishedAt_key rt p = Inr k" if "p \<in> set xs" for p
      using that by (cases "publishedAt_key rt p") auto
    then have "Array_sort (newest_first rt) xs
      = Inr (sort_key (\<lambda>p. - projr (publishedAt_key rt p)) xs)"
      by (rule Array_sort_key)
    with throws show False by simp
  qed
  with long show "2 \<le> length xs \<and> (\<exists>p\<in>set xs. \<exists>e. publishedAt_key rt p = Inl e)" ..
next
  assume a: "2 \<le> length xs \<and> (\<exists>p\<in>set xs. \<exists>e. publishedAt_key rt p = Inl e)"
  show "\<exists>e. Array_sort (newest_first rt) xs = Inl e"
  proof (cases "Array_sort (newest_first rt) xs")
    case (Inl e)
    then show ?thesis by simp
  next
    case (Inr ys)
    with a have "\<forall>p\<in>set xs. \<exists>k. publishedAt_key rt p = Inr k"
      using Array_sort_defined by blast
    with a show ?thesis by auto
  qed
qed

lemma Array_slice0_take: "\<exists>n. Array_slice0 xs stop = take n xs"
proof (cases stop)
  case PosInfinity
  then have "Array_slice0 xs stop = take (length xs) xs" by simp
  then show ?thesis ..
qed (auto simp: Let_def)

lemma getPosts_Inr:
  assumes "getPosts rt rootDir limit = Inr posts"
  obtains files metas sorted where
    "readdirSync rt rootDir = Inr files"
    "Array_map (getPostMetadata rt rootDir) (filter (\<lambda>file. endsWith file ''.md'') files) = Inr metas"
    "Array_sort (newest_first rt) metas = Inr sorted"
    "posts = (case limit of None \<Rightarrow> sorted
              | Some n \<Rightarrow> if truthy n then Array_slice0 sorted n else sorted)"
  using assms
  by (auto simp: getPosts_def split: sum.splits option.splits if_splits)

lemma getPosts_take:
  assumes "getPosts rt rootDir limit = Inr posts"
  shows "\<exists>n metas sorted. Array_sort (newest_first rt) metas = Inr sorted \<and> posts = take n sorted"
proof -
  from assms obtain files metas sorted where
    s: "Array_sort (newest_first rt) metas = Inr sorted" and
    p: "posts = (case limit of None \<Rightarrow> sorted
              | Some n \<Rightarrow> if truthy n then Array_slice0 sorted n else sorted)"
    by (rule getPosts_Inr)
  have "\<exists>n. posts = take n sorted"
  proof (cases limit)
    case None
    with p have "posts = take (length posts) sorted" by simp
    then show ?thesis ..
  next
    case (Some n)
    show ?thesis
    proof (cases "truthy n")
      case True
      with p Some have "posts = Array_slice0 sorted n" by simp
      with Array_slice0_take [of sorted n] show ?thesis by simp
    next
      case False
      with p Some have "posts = take (length posts) sorted" by simp
      then show ?thesis ..
    qed
  qed
  with s show ?thesis by blast
qed

lemma getPosts_sorted_wrt:
  assumes "getPosts rt rootDir limit = Inr posts"
  shows "sorted_wrt (\<lambda>a b. \<exists>ka kb. publishedAt_key rt a = Inr ka
      \<and> publishedAt_key rt b = Inr kb \<and> kb \<le> ka) posts"
proof -
  from getPosts_take [OF assms] obtain n metas sorted
    where s: "Array_sort (newest_first rt) metas = Inr sorted" and p: "posts = take n sorted"
    by blast
  show ?thesis
    unfolding p by (rule sorted_wrt_take) (rule Array_sort_sorted [OF s])
qed

text \<open>
  The key the code sorts by is the parsed timestamp, and 0 where there is none. This
  rests on \<^verbatim>\<open>new Date("")\<close> being an invalid date.
\<close>

lemma publishedAt_key_parsed:
  assumes "Date_getTime rt (JString '''') = Inr None"
  shows "publishedAt_key rt p =
    (case parsed_publishedAt rt p of
       Inl e \<Rightarrow> Inl e
     | Inr None \<Rightarrow> Inr 0
     | Inr (Some t) \<Rightarrow> Inr t)"
proof (cases "p ''publishedAt''")
  case None
  with assms show ?thesis
    by (simp add: publishedAt_key_def parsed_publishedAt_def)
next
  case (Some v)
  with assms show ?thesis
    by (cases v) (auto simp: publishedAt_key_def parsed_publishedAt_def split: sum.splits option.splits)
qed

lemma sorted_wrt_before:
  assumes "sorted_wrt (\<lambda>a b. \<exists>ka kb. k a = Inr ka \<and> k b = Inr kb \<and> kb \<le> ka) xs"
    and "i < length xs" "j < length xs"
    and "k (xs ! i) = Inr ki" "k (xs ! j) = Inr kj" "(kj :: int) < ki"
  shows "i < j"
proof (rule ccontr)
  assume "\<not> i < j"
  with assms(4-6) have "j < i" by (cases "i = j") auto
  with assms(1,2) have "\<exists>ka kb. k (xs ! j) = Inr ka \<and> k (xs ! i) = Inr kb \<and> kb \<le> ka"
    using sorted_wrt_nth_less by blast
  with assms(4-6) show False by simp
qed

text \<open>Evaluating the example store.\<close>

lemmas example_defs =
  example_rt_def example_readdirSync_def example_readFileSync_def example_matter_def
  a_md_def b_md_def c_md_def broken_md_def plain_md_def slugged_md_def
  meta_a_def meta_b_def meta_c_def meta_plain_def meta_slugged_def
  old_md_def undated_md_def meta_old_def meta_undated_def

lemmas posts_defs =
  getPosts_def getPostMetadata_def getPostBySlug_def try_catch_def replace_md_suffix_def
  endsWith_def newest_first_def publishedAt_key_def

lemma example_getPosts: "getPosts example_rt ''data'' None = Inr [meta_b, meta_a, meta_c]"
  by (simp add: posts_defs example_defs)

section \<open>The claims\<close>

text \<open>
  C1, as amended. Whenever \<^verbatim>\<open>getPosts\<close> returns (the directory was listed, every
  \<^verbatim>\<open>.md\<close> file was read and parsed, and the sort did not throw), its result is sorted
  non-increasing by the timestamp parsed from \<^verbatim>\<open>publishedAt\<close>, where a missing or
  unparseable \<^verbatim>\<open>publishedAt\<close> counts as timestamp 0 (the epoch); of two items of the
  result, the one with the strictly greater timestamp comes first. An undated item
  therefore sits where an item dated 1970-01-01 would: after every item dated later,
  before every item dated earlier.
\<close>

theorem getPosts_sorted_by_publishedAt:
  assumes "Date_getTime rt (JString '''') = Inr None"
    and "getPosts rt rootDir limit = Inr posts"
  shows "(\<forall>p. publishedAt_key rt p =
            (case parsed_publishedAt rt p of
               Inl e \<Rightarrow> Inl e
             | Inr None \<Rightarrow> Inr 0
             | Inr (Some t) \<Rightarrow> Inr t))
    \<and> sorted_wrt (\<lambda>a b. \<exists>ka kb. publishedAt_key rt a = Inr ka
          \<and> publishedAt_key rt b = Inr kb \<and> kb \<le> ka) posts
    \<and> (\<forall>i j ki kj. i < length posts \<and> j < length posts
            \<and> publishedAt_key rt (posts ! i) = Inr ki
            \<and> publishedAt_key rt (posts ! j) = Inr kj \<and> kj < ki \<longrightarrow> i < j)
    \<and> (\<forall>i j ki. i < length posts \<and> j < length posts
            \<and> parsed_publishedAt rt (posts ! j) = Inr None
            \<and> publishedAt_key rt (posts ! i) = Inr ki \<and> 0 < ki \<longrightarrow> i < j)
    \<and> (\<forall>i j kj. i < length posts \<and> j < length posts
            \<and> parsed_publishedAt rt (posts ! i) = Inr None
            \<and> publishedAt_key rt (posts ! j) = Inr kj \<and> kj < 0 \<longrightarrow> i < j)"
proof (intro conjI allI impI)
  fix p
  show "publishedAt_key rt p =
            (case parsed_publishedAt rt p of
               Inl e \<Rightarrow> Inl e
             | Inr None \<Rightarrow> Inr 0
             | Inr (Some t) \<Rightarrow> Inr t)"
    using assms(1) by (rule publishedAt_key_parsed)
next
  show "sorted_wrt (\<lambda>a b. \<exists>ka kb. publishedAt_key rt a = Inr ka
          \<and> publishedAt_key rt b = Inr kb \<and> kb \<le> ka) posts"
    using assms(2) by (rule getPosts_sorted_wrt)
next
  fix i j ki kj
  assume "i < length posts \<and> j < length posts
            \<and> publishedAt_key rt (posts ! i) = Inr ki
            \<and> publishedAt_key rt (posts ! j) = Inr kj \<and> kj < ki"
  then show "i < j"
    using sorted_wrt_before [OF getPosts_sorted_wrt [OF assms(2)], of i j ki kj] by simp
next
  fix i j ki
  assume a: "i < length posts \<and> j < length posts
            \<and> parsed_publishedAt rt (posts ! j) = Inr None
            \<and> publishedAt_key rt (posts ! i) = Inr ki \<and> 0 < ki"
  then have "publishedAt_key rt (posts ! j) = Inr 0"
    by (simp add: publishedAt_key_parsed [OF assms(1)])
  with a show "i < j"
    using sorted_wrt_before [OF getPosts_sorted_wrt [OF assms(2)], of i j ki 0] by simp
next
  fix i j kj
  assume a: "i < length posts \<and> j < length posts
            \<and> parsed_publishedAt rt (posts ! i) = Inr None
            \<and> publishedAt_key rt (posts ! j) = Inr kj \<and> kj < 0"
  then have "publishedAt_key rt (posts ! i) = Inr 0"
    by (simp add: publishedAt_key_parsed [OF assms(1)])
  with a show "i < j"
    using sorted_wrt_before [OF getPosts_sorted_wrt [OF assms(2)], of i j 0 kj] by simp
qed

text \<open>
  As stated, C1 fails where a post is dated before 1970: its timestamp is negative, so
  the undated post, with key 0, comes first and the dated one holds the oldest position.
\<close>

theorem getPosts_undated_first_counterexample:
  "getPosts example_rt ''archive'' None = Inr [meta_undated, meta_old]
   \<and> parsed_publishedAt example_rt meta_undated = Inr None
   \<and> parsed_publishedAt example_rt meta_old = Inr (Some (- 315619200000))"
  by (simp add: posts_defs example_defs parsed_publishedAt_def)

theorem getPosts_sorted_by_publishedAt_witness:
  "Date_getTime example_rt (JString '''') = Inr None
   \<and> getPosts example_rt ''data'' None = Inr [meta_b, meta_a, meta_c]
   \<and> sorted_wrt (\<lambda>a b. \<exists>ka kb. publishedAt_key example_rt a = Inr ka
          \<and> publishedAt_key example_rt b = Inr kb \<and> kb \<le> ka) [meta_b, meta_a, meta_c]
   \<and> parsed_publishedAt example_rt meta_c = Inr None
   \<and> map (publishedAt_key example_rt) [meta_b, meta_a, meta_c]
       = [Inr 1740787200000, Inr 1735689600000, Inr 0]"
proof -
  have empty: "Date_getTime example_rt (JString '''') = Inr None"
    by (simp add: example_rt_def)
  have undated: "parsed_publishedAt example_rt meta_c = Inr None"
    by (simp add: parsed_publishedAt_def meta_c_def)
  have keys: "map (publishedAt_key example_rt) [meta_b, meta_a, meta_c]
      = [Inr 1740787200000, Inr 1735689600000, Inr 0]"
    by (simp add: publishedAt_key_def example_rt_def meta_a_def meta_b_def meta_c_def)
  note sorted = getPosts_sorted_by_publishedAt [OF empty example_getPosts, THEN conjunct2, THEN conjunct1]
  from empty example_getPosts sorted undated keys show ?thesis
    by (intro conjI)
qed

lemma getPostBySlug_outcome:
  "getPostBySlug rt rootDir slug =
     (case readFileSync rt (path_join rt rootDir (slug @ ''.md'')) of
        Inl e \<Rightarrow> Inr None
      | Inr fileContents \<Rightarrow>
          (case matter rt fileContents of
             Inl e \<Rightarrow> Inr None
           | Inr parsed \<Rightarrow>
               Inr (Some \<lparr>metadata = (fst parsed)(''slug'' \<mapsto> JString slug),
                          content = snd parsed\<rparr>)))"
  by (simp add: getPostBySlug_def try_catch_def Let_def split: sum.splits prod.splits)

lemma getPostBySlug_returns: "getPostBySlug rt rootDir slug \<noteq> Inl e"
  by (simp add: getPostBySlug_outcome split: sum.splits)

text \<open>
  C2. \<^verbatim>\<open>getPostBySlug\<close> never throws, whatever the root directory and the slug: when
  the file cannot be read (no such file, unreadable file) and when its header is malformed
  it returns \<^verbatim>\<open>null\<close>, the one not-found outcome for both failures.
\<close>

theorem getPostBySlug_not_found:
  "(\<forall>e. getPostBySlug rt rootDir slug \<noteq> Inl e)
   \<and> (\<forall>e. readFileSync rt (path_join rt rootDir (slug @ ''.md'')) = Inl e
          \<longrightarrow> getPostBySlug rt rootDir slug = Inr None)
   \<and> (\<forall>fileContents e.
          readFileSync rt (path_join rt rootDir (slug @ ''.md'')) = Inr fileContents
          \<and> matter rt fileContents = Inl e
          \<longrightarrow> getPostBySlug rt rootDir slug = Inr None)"
proof (intro conjI allI impI)
  fix e
  show "getPostBySlug rt rootDir slug \<noteq> Inl e"
    by (rule getPostBySlug_returns)
next
  fix e
  assume "readFileSync rt (path_join rt rootDir (slug @ ''.md'')) = Inl e"
  then show "getPostBySlug rt rootDir slug = Inr None"
    by (simp add: getPostBySlug_outcome)
next
  fix fileContents e
  assume "readFileSync rt (path_join rt rootDir (slug @ ''.md'')) = Inr fileContents
          \<and> matter rt fileContents = Inl e"
  then show "getPostBySlug rt rootDir slug = Inr None"
    by (simp add: getPostBySlug_outcome)
qed

theorem getPostBySlug_not_found_witness:
  "readFileSync example_rt (path_join example_rt ''data'' (''missing'' @ ''.md''))
     = Inl (SystemError ''ENOENT: no such file or directory, open'')
   \<and> getPostBySlug example_rt ''data'' ''missing'' = Inr None
   \<and> readFileSync example_rt (path_join example_rt ''drafts'' (''broken'' @ ''.md'')) = Inr broken_md
   \<and> matter example_rt broken_md = Inl (YAMLException ''unexpected end of the stream'')
   \<and> getPostBySlug example_rt ''drafts'' ''broken'' = Inr None"
proof -
  have missing: "readFileSync example_rt (path_join example_rt ''data'' (''missing'' @ ''.md''))
     = Inl (SystemError ''ENOENT: no such file or directory, open'')"
    by (simp add: example_rt_def example_readFileSync_def)
  have broken: "readFileSync example_rt (path_join example_rt ''drafts'' (''broken'' @ ''.md''))
       = Inr broken_md
     \<and> matter example_rt broken_md = Inl (YAMLException ''unexpected end of the stream'')"
    by (simp add: example_rt_def example_readFileSync_def example_matter_def
        a_md_def b_md_def c_md_def broken_md_def)
  note unreadable = getPostBySlug_not_found [of example_rt "''data''" "''missing''",
      THEN conjunct2, THEN conjunct1, rule_format, OF missing]
  note malformed = getPostBySlug_not_found [of example_rt "''drafts''" "''broken''",
      THEN conjunct2, THEN conjunct2, rule_format, OF broken]
  from missing unreadable broken malformed show ?thesis by simp
qed

lemma getPostMetadata_outcome:
  "getPostMetadata rt rootDir filePath =
     (case readFileSync rt (path_join rt rootDir filePath) of
        Inl e \<Rightarrow> Inl e
      | Inr fileContents \<Rightarrow>
          (case matter rt fileContents of
             Inl e \<Rightarrow> Inl e
           | Inr parsed \<Rightarrow>
               Inr ((fst parsed)(''slug'' \<mapsto> JString (replace_md_suffix filePath)))))"
  by (simp add: getPostMetadata_def Let_def split: sum.splits prod.splits)

lemma Array_map_throws:
  "(\<exists>e. Array_map f xs = Inl e) \<longleftrightarrow> (\<exists>x\<in>set xs. \<exists>e. f x = Inl e)"
  by (induction xs) (auto split: sum.splits)

lemma Array_map_length: "Array_map f xs = Inr ys \<Longrightarrow> length ys = length xs"
  by (induction xs arbitrary: ys) (auto split: sum.splits)

lemma Array_map_element:
  assumes "Array_map f xs = Inr ys" and "y \<in> set ys"
  shows "\<exists>x\<in>set xs. f x = Inr y"
  using assms
  by (induction xs arbitrary: ys) (auto split: sum.splits)

lemma Array_map_image:
  assumes "Array_map f xs = Inr ys" and "x \<in> set xs"
  shows "\<exists>y\<in>set ys. f x = Inr y"
  using assms
  by (induction xs arbitrary: ys) (auto split: sum.splits)

lemma getPosts_readdir_throws:
  "readdirSync rt rootDir = Inl e \<Longrightarrow> getPosts rt rootDir limit = Inl e"
  by (simp add: getPosts_def)

lemma getPosts_throws:
  assumes "readdirSync rt rootDir = Inr files"
  shows "(\<exists>e. getPosts rt rootDir limit = Inl e) \<longleftrightarrow>
    (\<exists>e. Array_map (getPostMetadata rt rootDir) (filter (\<lambda>file. endsWith file ''.md'') files) = Inl e)
    \<or> (\<exists>metas. Array_map (getPostMetadata rt rootDir)
            (filter (\<lambda>file. endsWith file ''.md'') files) = Inr metas
          \<and> (\<exists>e. Array_sort (newest_first rt) metas = Inl e))"
  using assms by (auto simp: getPosts_def split: sum.splits option.splits)

lemma publishedAt_key_throws:
  "publishedAt_key rt (data(''slug'' \<mapsto> v)) = Inl e \<longleftrightarrow>
     Date_getTime rt (nullish_or (data ''publishedAt'') (JString '''')) = Inl e"
  by (simp add: publishedAt_key_def split: sum.splits)

text \<open>
  The posts on whose key the comparator throws are those of the files on whose
  \<^verbatim>\<open>publishedAt\<close> the \<^verbatim>\<open>Date\<close> constructor throws.
\<close>

lemma key_throws_files:
  assumes "Array_map (getPostMetadata rt rootDir) names = Inr metas"
  shows "(\<exists>p\<in>set metas. \<exists>e. publishedAt_key rt p = Inl e) \<longleftrightarrow>
    (\<exists>name\<in>set names. \<exists>fileContents data body e.
        readFileSync rt (path_join rt rootDir name) = Inr fileContents
        \<and> matter rt fileContents = Inr (data, body)
        \<and> Date_getTime rt (nullish_or (data ''publishedAt'') (JString '''')) = Inl e)"
proof
  assume "\<exists>p\<in>set metas. \<exists>e. publishedAt_key rt p = Inl e"
  then obtain p e where p: "p \<in> set metas" and e: "publishedAt_key rt p = Inl e"
    by blast
  from Array_map_element [OF assms p] obtain name where name: "name \<in> set names"
    and built: "getPostMetadata rt rootDir name = Inr p" ..
  from built obtain fileContents parsed where
    read: "readFileSync rt (path_join rt rootDir name) = Inr fileContents"
    and parsed: "matter rt fileContents = Inr parsed"
    and meta: "p = (fst parsed)(''slug'' \<mapsto> JString (replace_md_suffix name))"
    by (auto simp: getPostMetadata_outcome split: sum.splits)
  from e have "Date_getTime rt (nullish_or (fst parsed ''publishedAt'') (JString '''')) = Inl e"
    unfolding meta by (simp only: publishedAt_key_throws)
  with read parsed have "\<exists>fileContents data body e.
        readFileSync rt (path_join rt rootDir name) = Inr fileContents
        \<and> matter rt fileContents = Inr (data, body)
        \<and> Date_getTime rt (nullish_or (data ''publishedAt'') (JString '''')) = Inl e"
    by (intro exI [of _ fileContents] exI [of _ "fst parsed"] exI [of _ "snd parsed"] exI [of _ e])
      simp
  with name show "\<exists>name\<in>set names. \<exists>fileContents data body e.
        readFileSync rt (path_join rt rootDir name) = Inr fileContents
        \<and> matter rt fileContents = Inr (data, body)
        \<and> Date_getTime rt (nullish_or (data ''publishedAt'') (JString '''')) = Inl e" ..
next
  assume "\<exists>name\<in>set names. \<exists>fileContents data body e.
        readFileSync rt (path_join rt rootDir name) = Inr fileContents
        \<and> matter rt fileContents = Inr (data, body)
        \<and> Date_getTime rt (nullish_or (data ''publishedAt'') (JString '''')) = Inl e"
  then obtain name fileContents data body e where name: "name \<in> set names"
    and read: "readFileSync rt (path_join rt rootDir name) = Inr fileContents"
    and parsed: "matter rt fileContents = Inr (data, body)"
    and date: "Date_getTime rt (nullish_or (data ''publishedAt'') (JString '''')) = Inl e"
    by blast
  from read parsed have built: "getPostMetadata rt rootDir name
      = Inr (data(''slug'' \<mapsto> JString (replace_md_suffix name)))"
    by (simp add: getPostMetadata_outcome)
  from Array_map_image [OF assms name] built
  have "data(''slug'' \<mapsto> JString (replace_md_suffix name)) \<in> set metas"
    by auto
  moreover from date have "publishedAt_key rt (data(''slug'' \<mapsto> JString (replace_md_suffix name))) = Inl e"
    by (simp only: publishedAt_key_throws)
  ultimately show "\<exists>p\<in>set metas. \<exists>e. publishedAt_key rt p = Inl e"
    by blast
qed

text \<open>
  C3, as amended. No exception escapes \<^verbatim>\<open>getPostBySlug\<close>. \<^verbatim>\<open>getPosts\<close> has no guard:
  an exception of the directory listing propagates to the caller, and once the directory
  is listed, \<^verbatim>\<open>getPosts\<close> throws exactly when some \<^verbatim>\<open>.md\<close> file cannot be read or has a
  malformed header, or when there are two or more \<^verbatim>\<open>.md\<close> files and the \<^verbatim>\<open>Date\<close>
  constructor throws on the \<^verbatim>\<open>publishedAt\<close> of one of them.
\<close>

theorem data_layer_exceptions:
  "(\<forall>e. getPostBySlug rt rootDir slug \<noteq> Inl e)
   \<and> (\<forall>e. readdirSync rt rootDir = Inl e \<longrightarrow> getPosts rt rootDir limit = Inl e)
   \<and> (\<forall>files. readdirSync rt rootDir = Inr files \<longrightarrow>
         ((\<exists>e. getPosts rt rootDir limit = Inl e) \<longleftrightarrow>
          (\<exists>file\<in>set files. endsWith file ''.md''
               \<and> (\<exists>e. readFileSync rt (path_join rt rootDir file) = Inl e
                     \<or> (\<exists>fileContents. readFileSync rt (path_join rt rootDir file) = Inr fileContents
                           \<and> matter rt fileContents = Inl e)))
          \<or> (2 \<le> length (filter (\<lambda>file. endsWith file ''.md'') files)
              \<and> (\<exists>file\<in>set files. endsWith file ''.md''
                   \<and> (\<exists>fileContents data body e.
                         readFileSync rt (path_join rt rootDir file) = Inr fileContents
                         \<and> matter rt fileContents = Inr (data, body)
                         \<and> Date_getTime rt (nullish_or (data ''publishedAt'') (JString ''''))
                             = Inl e)))))"
proof (intro conjI allI impI)
  fix e
  show "getPostBySlug rt rootDir slug \<noteq> Inl e"
    by (rule getPostBySlug_returns)
next
  fix e
  assume "readdirSync rt rootDir = Inl e"
  then show "getPosts rt rootDir limit = Inl e"
    by (rule getPosts_readdir_throws)
next
  fix files
  assume listed: "readdirSync rt rootDir = Inr files"
  define names where "names = filter (\<lambda>file. endsWith file ''.md'') files"
  define unread where "unread \<longleftrightarrow>
    (\<exists>file\<in>set files. endsWith file ''.md''
       \<and> (\<exists>e. readFileSync rt (path_join rt rootDir file) = Inl e
             \<or> (\<exists>fileContents. readFileSync rt (path_join rt rootDir file) = Inr fileContents
                   \<and> matter rt fileContents = Inl e)))"
  define undatable where "undatable \<longleftrightarrow>
    (\<exists>file\<in>set files. endsWith file ''.md''
       \<and> (\<exists>fileContents data body e.
             readFileSync rt (path_join rt rootDir file) = Inr fileContents
             \<and> matter rt fileContents = Inr (data, body)
             \<and> Date_getTime rt (nullish_or (data ''publishedAt'') (JString '''')) = Inl e))"
  have one: "(\<exists>e. getPostMetadata rt rootDir f = Inl e) \<longleftrightarrow>
      (\<exists>e. readFileSync rt (path_join rt rootDir f) = Inl e
          \<or> (\<exists>fileContents. readFileSync rt (path_join rt rootDir f) = Inr fileContents
                \<and> matter rt fileContents = Inl e))" for f
    by (auto simp: getPostMetadata_outcome split: sum.splits)
  have "(\<exists>e. Array_map (getPostMetadata rt rootDir) names = Inl e) \<longleftrightarrow>
      (\<exists>file\<in>set names. \<exists>e. getPostMetadata rt rootDir file = Inl e)"
    by (rule Array_map_throws)
  also have "\<dots> \<longleftrightarrow> (\<exists>file\<in>set files. endsWith file ''.md''
      \<and> (\<exists>e. getPostMetadata rt rootDir file = Inl e))"
    unfolding names_def by auto
  also have "\<dots> \<longleftrightarrow> unread"
    unfolding unread_def by (simp only: one)
  finally have map_throws: "(\<exists>e. Array_map (getPostMetadata rt rootDir) names = Inl e) \<longleftrightarrow> unread" .
  have sort_throws: "(\<exists>e. Array_sort (newest_first rt) metas = Inl e) \<longleftrightarrow>
      2 \<le> length names \<and> undatable"
    if mapped: "Array_map (getPostMetadata rt rootDir) names = Inr metas" for metas
  proof -
    have "(\<exists>p\<in>set metas. \<exists>e. publishedAt_key rt p = Inl e) \<longleftrightarrow>
      (\<exists>name\<in>set names. \<exists>fileContents data body e.
        readFileSync rt (path_join rt rootDir name) = Inr fileContents
        \<and> matter rt fileContents = Inr (data, body)
        \<and> Date_getTime rt (nullish_or (data ''publishedAt'') (JString '''')) = Inl e)"
      using mapped by (rule key_throws_files)
    also have "\<dots> \<longleftrightarrow> undatable"
      unfolding undatable_def names_def by auto
    finally show ?thesis
      by (simp add: Array_sort_throws Array_map_length [OF mapped])
  qed
  have "(\<exists>e. getPosts rt rootDir limit = Inl e) \<longleftrightarrow> unread \<or> (2 \<le> length names \<and> undatable)"
  proof (cases "Array_map (getPostMetadata rt rootDir) names")
    case (Inl e)
    then have unread using map_throws by blast
    moreover from Inl have "\<exists>e. getPosts rt rootDir limit = Inl e"
      using getPosts_throws [OF listed, of limit] unfolding names_def by blast
    ultimately show ?thesis by simp
  next
    case (Inr metas)
    then have "\<not> unread" using map_throws by auto
    moreover from Inr have "(\<exists>e. getPosts rt rootDir limit = Inl e) \<longleftrightarrow>
        (\<exists>e. Array_sort (newest_first rt) metas = Inl e)"
      using getPosts_throws [OF listed, of limit] unfolding names_def by auto
    ultimately show ?thesis
      using sort_throws [OF Inr] by simp
  qed
  then show "(\<exists>e. getPosts rt rootDir limit = Inl e) \<longleftrightarrow>
          (\<exists>file\<in>set files. endsWith file ''.md''
               \<and> (\<exists>e. readFileSync rt (path_join rt rootDir file) = Inl e
                     \<or> (\<exists>fileContents. readFileSync rt (path_join rt rootDir file) = Inr fileContents
                           \<and> matter rt fileContents = Inl e)))
          \<or> (2 \<le> length (filter (\<lambda>file. endsWith file ''.md'') files)
              \<and> (\<exists>file\<in>set files. endsWith file ''.md''
                   \<and> (\<exists>fileContents data body e.
                         readFileSync rt (path_join rt rootDir file) = Inr fileContents
                         \<and> matter rt fileContents = Inr (data, body)
                         \<and> Date_getTime rt (nullish_or (data ''publishedAt'') (JString ''''))
                             = Inl e)))"
    unfolding unread_def undatable_def names_def .
qed

text \<open>
  As stated, C3 fails for \<^verbatim>\<open>getPosts\<close>: on a root directory that does not exist the
  exception of \<^verbatim>\<open>readdirSync\<close> escapes, and on a directory with a malformed post the
  exception of the parser does.
\<close>

theorem getPosts_throws_counterexample:
  "getPosts example_rt ''nowhere'' None
     = Inl (SystemError ''ENOENT: no such file or directory, scandir'')
   \<and> getPosts example_rt ''drafts'' None = Inl (YAMLException ''unexpected end of the stream'')"
  by (simp add: posts_defs example_defs)

lemmas odd_defs = odd_rt_def odd_readFileSync_def odd_md_def plain_md_def

theorem data_layer_exceptions_witness:
  "getPostBySlug example_rt ''drafts'' ''broken'' = Inr None
   \<and> readdirSync example_rt ''nowhere''
       = Inl (SystemError ''ENOENT: no such file or directory, scandir'')
   \<and> getPosts example_rt ''nowhere'' (Some (Finite 2))
       = Inl (SystemError ''ENOENT: no such file or directory, scandir'')
   \<and> readdirSync example_rt ''drafts'' = Inr [''broken.md'']
   \<and> (\<exists>e. getPosts example_rt ''drafts'' (Some (Finite 2)) = Inl e)
   \<and> readdirSync odd_rt ''odd'' = Inr [''odd.md'', ''plain.md'']
   \<and> matter odd_rt odd_md = Inr ([''publishedAt'' \<mapsto> JOther ()], ''Odd'')
   \<and> Date_getTime odd_rt (JOther ()) = Inl (TypeError ''Cannot convert object to primitive value'')
   \<and> (\<exists>e. getPosts odd_rt ''odd'' None = Inl e)"
proof -
  have found: "getPostBySlug example_rt ''drafts'' ''broken'' = Inr None"
    by (simp add: posts_defs example_defs)
  have nowhere: "readdirSync example_rt ''nowhere''
       = Inl (SystemError ''ENOENT: no such file or directory, scandir'')"
    by (simp add: example_defs)
  have drafts: "readdirSync example_rt ''drafts'' = Inr [''broken.md'']"
    by (simp add: example_defs)
  have broken: "\<exists>file\<in>set [''broken.md'']. endsWith file ''.md''
      \<and> (\<exists>e. readFileSync example_rt (path_join example_rt ''drafts'' file) = Inl e
            \<or> (\<exists>fileContents.
                  readFileSync example_rt (path_join example_rt ''drafts'' file) = Inr fileContents
                  \<and> matter example_rt fileContents = Inl e))"
    by (simp add: endsWith_def example_defs)
  note rule = data_layer_exceptions [of example_rt _ "''broken''" "Some (Finite 2)"]
  note unlisted = rule [of "''nowhere''", THEN conjunct2, THEN conjunct1, rule_format, OF nowhere]
  note unparsed = rule [of "''drafts''", THEN conjunct2, THEN conjunct2, rule_format, OF drafts,
      THEN iffD2, OF disjI1, OF broken]
  have odd: "readdirSync odd_rt ''odd'' = Inr [''odd.md'', ''plain.md'']"
    and header: "matter odd_rt odd_md = Inr ([''publishedAt'' \<mapsto> JOther ()], ''Odd'')"
    and date: "Date_getTime odd_rt (JOther ())
      = Inl (TypeError ''Cannot convert object to primitive value'')"
    by (simp_all add: odd_defs)
  have read: "readFileSync odd_rt (path_join odd_rt ''odd'' ''odd.md'') = Inr odd_md"
    by (simp add: odd_rt_def odd_readFileSync_def)
  from read header date
  have "\<exists>fileContents data body e.
      readFileSync odd_rt (path_join odd_rt ''odd'' ''odd.md'') = Inr fileContents
      \<and> matter odd_rt fileContents = Inr (data, body)
      \<and> Date_getTime odd_rt (nullish_or (data ''publishedAt'') (JString '''')) = Inl e"
    by (intro exI [of _ odd_md] exI [of _ "[''publishedAt'' \<mapsto> JOther ()]"] exI [of _ "''Odd''"]
        exI [of _ "TypeError ''Cannot convert object to primitive value''"]) simp
  then have undatable: "2 \<le> length (filter (\<lambda>file. endsWith file ''.md'') [''odd.md'', ''plain.md''])
      \<and> (\<exists>file\<in>set [''odd.md'', ''plain.md'']. endsWith file ''.md''
           \<and> (\<exists>fileContents data body e.
                 readFileSync odd_rt (path_join odd_rt ''odd'' file) = Inr fileContents
                 \<and> matter odd_rt fileContents = Inr (data, body)
                 \<and> Date_getTime odd_rt (nullish_or (data ''publishedAt'') (JString '''')) = Inl e))"
    by (simp add: endsWith_def)
  note thrown = data_layer_exceptions [of odd_rt "''odd''" "''odd''" None,
      THEN conjunct2, THEN conjunct2, rule_format, OF odd, THEN iffD2, OF disjI2, OF undatable]
  from found nowhere unlisted drafts unparsed odd header date thrown show ?thesis
    by (intro conjI)
qed

lemma getPosts_limit:
  "getPosts rt rootDir (Some n) =
     (case getPosts rt rootDir None of
        Inl e \<Rightarrow> Inl e
      | Inr posts \<Rightarrow> Inr (if truthy n then Array_slice0 posts n else posts))"
  by (simp add: getPosts_def split: sum.splits)

lemma Array_slice0_prefix: "prefix (Array_slice0 xs n) xs"
  by (cases n) (simp_all add: Let_def take_is_prefix)

lemma Array_slice0_length:
  assumes "positive n"
  shows "at_most (length (Array_slice0 xs n)) n"
proof (cases n)
  case (Finite x)
  with assms have x: "0 < x" by simp
  then have stop: "truncate_toward_zero x = \<lfloor>x\<rfloor>" and "0 \<le> \<lfloor>x\<rfloor>"
    by (simp_all add: truncate_toward_zero_def)
  then have "length (Array_slice0 xs (Finite x)) \<le> nat \<lfloor>x\<rfloor>"
    by (simp add: Let_def)
  then have "real (length (Array_slice0 xs (Finite x))) \<le> real (nat \<lfloor>x\<rfloor>)"
    by simp
  also from \<open>0 \<le> \<lfloor>x\<rfloor>\<close> have "real (nat \<lfloor>x\<rfloor>) = of_int \<lfloor>x\<rfloor>"
    by simp
  also have "\<dots> \<le> x"
    by (rule of_int_floor_le)
  finally show ?thesis
    using Finite by simp
qed (use assms in simp_all)

lemma positive_truthy: "positive n \<Longrightarrow> truthy n"
  by (cases n) simp_all

text \<open>
  C4, as amended. Where \<^verbatim>\<open>getPosts(root)\<close> returns a list, \<^verbatim>\<open>getPosts(root, 0)\<close> returns
  the same list, and for every number \<open>n\<close> (fractions, \<^verbatim>\<open>NaN\<close> and the infinities
  included) the result of \<^verbatim>\<open>getPosts(root, n)\<close> is a prefix of it, of at most \<open>n\<close> items
  when \<open>n\<close> is positive.
\<close>

theorem getPosts_limit_prefix:
  assumes "getPosts rt rootDir None = Inr posts"
  shows "getPosts rt rootDir (Some (Finite 0)) = Inr posts
    \<and> (\<forall>n. \<exists>kept. getPosts rt rootDir (Some n) = Inr kept
          \<and> prefix kept posts
          \<and> (positive n \<longrightarrow> at_most (length kept) n))"
proof (intro conjI allI)
  show "getPosts rt rootDir (Some (Finite 0)) = Inr posts"
    using assms by (simp add: getPosts_limit)
next
  fix n
  show "\<exists>kept. getPosts rt rootDir (Some n) = Inr kept
          \<and> prefix kept posts
          \<and> (positive n \<longrightarrow> at_most (length kept) n)"
  proof (cases "truthy n")
    case True
    with assms have "getPosts rt rootDir (Some n) = Inr (Array_slice0 posts n)"
      by (simp add: getPosts_limit)
    then show ?thesis
      by (simp add: Array_slice0_prefix Array_slice0_length)
  next
    case False
    then have "\<not> positive n"
      using positive_truthy by blast
    with assms False show ?thesis
      by (simp add: getPosts_limit)
  qed
qed

text \<open>
  As stated, C4 fails for a negative limit: \<^verbatim>\<open>slice(0, -1)\<close> drops the last item, so
  \<^verbatim>\<open>getPosts(root, -1)\<close> on the three posts returns two items, which is more than -1.
\<close>

theorem getPosts_negative_limit_counterexample:
  "getPosts example_rt ''data'' (Some (Finite (- 1))) = Inr [meta_b, meta_a]
   \<and> \<not> at_most (length [meta_b, meta_a]) (Finite (- 1))"
  by (simp add: getPosts_limit example_getPosts truncate_toward_zero_def ceiling_def)

theorem getPosts_limit_prefix_witness:
  "getPosts example_rt ''data'' None = Inr [meta_b, meta_a, meta_c]
   \<and> getPosts example_rt ''data'' (Some (Finite 0)) = Inr [meta_b, meta_a, meta_c]
   \<and> positive (Finite 2)
   \<and> (\<exists>kept. getPosts example_rt ''data'' (Some (Finite 2)) = Inr kept
         \<and> prefix kept [meta_b, meta_a, meta_c] \<and> at_most (length kept) (Finite 2))
   \<and> positive (Finite (1 / 2))
   \<and> (\<exists>kept. getPosts example_rt ''data'' (Some (Finite (1 / 2))) = Inr kept
         \<and> prefix kept [meta_b, meta_a, meta_c] \<and> at_most (length kept) (Finite (1 / 2)))
   \<and> getPosts example_rt ''data'' (Some (Finite (1 / 2))) = Inr []
   \<and> (\<exists>kept. getPosts example_rt ''data'' (Some NaN) = Inr kept
         \<and> prefix kept [meta_b, meta_a, meta_c])"
proof -
  note rule = getPosts_limit_prefix [OF example_getPosts]
  from rule have zero: "getPosts example_rt ''data'' (Some (Finite 0)) = Inr [meta_b, meta_a, meta_c]"
    by (rule conjunct1)
  have two: "positive (Finite 2)" and half: "positive (Finite (1 / 2))"
    by simp_all
  from rule [THEN conjunct2, THEN spec, of "Finite 2"] two
  have upto_two: "\<exists>kept. getPosts example_rt ''data'' (Some (Finite 2)) = Inr kept
         \<and> prefix kept [meta_b, meta_a, meta_c] \<and> at_most (length kept) (Finite 2)"
    by blast
  from rule [THEN conjunct2, THEN spec, of "Finite (1 / 2)"] half
  have upto_half: "\<exists>kept. getPosts example_rt ''data'' (Some (Finite (1 / 2))) = Inr kept
         \<and> prefix kept [meta_b, meta_a, meta_c] \<and> at_most (length kept) (Finite (1 / 2))"
    by blast
  have none: "getPosts example_rt ''data'' (Some (Finite (1 / 2))) = Inr []"
    by (simp add: getPosts_limit example_getPosts truncate_toward_zero_def)
  from rule [THEN conjunct2, THEN spec, of NaN]
  have nan: "\<exists>kept. getPosts example_rt ''data'' (Some NaN) = Inr kept
         \<and> prefix kept [meta_b, meta_a, meta_c]"
    by blast
  from example_getPosts zero two upto_two half upto_half none nan show ?thesis
    by (intro conjI)
qed

text \<open>
  C5. When the file of the slug is read and its header parses to \<open>data\<close>,
  \<^verbatim>\<open>getPostBySlug\<close> returns a post whose metadata is \<open>data\<close> with the field \<^verbatim>\<open>slug\<close> set
  to the requested slug: its keys are those of the header plus \<^verbatim>\<open>slug\<close>, every other
  key keeps the header's value, and the content is the parser's body.
\<close>

theorem getPostBySlug_metadata:
  assumes "readFileSync rt (path_join rt rootDir (slug @ ''.md'')) = Inr fileContents"
    and "matter rt fileContents = Inr (data, body)"
  shows "\<exists>post. getPostBySlug rt rootDir slug = Inr (Some post)
    \<and> metadata post = data(''slug'' \<mapsto> JString slug)
    \<and> dom (metadata post) = insert ''slug'' (dom data)
    \<and> (\<forall>k. k \<noteq> ''slug'' \<longrightarrow> metadata post k = data k)
    \<and> content post = body"
  using assms by (simp add: getPostBySlug_outcome)

theorem getPostBySlug_metadata_witness:
  "readFileSync example_rt (path_join example_rt ''data'' (''a'' @ ''.md'')) = Inr a_md
   \<and> matter example_rt a_md
       = Inr ([''title'' \<mapsto> JString ''Alpha'', ''publishedAt'' \<mapsto> JOther 1735689600000],
              ''First post'')
   \<and> (\<exists>post. getPostBySlug example_rt ''data'' ''a'' = Inr (Some post)
         \<and> metadata post = meta_a
         \<and> dom (metadata post) = {''slug'', ''title'', ''publishedAt''}
         \<and> content post = ''First post'')"
proof -
  have read: "readFileSync example_rt (path_join example_rt ''data'' (''a'' @ ''.md'')) = Inr a_md"
    by (simp add: example_rt_def example_readFileSync_def)
  have parsed: "matter example_rt a_md
       = Inr ([''title'' \<mapsto> JString ''Alpha'', ''publishedAt'' \<mapsto> JOther 1735689600000],
              ''First post'')"
    by (simp add: example_rt_def example_matter_def)
  from getPostBySlug_metadata [OF read parsed]
  have "\<exists>post. getPostBySlug example_rt ''data'' ''a'' = Inr (Some post)
         \<and> metadata post = meta_a
         \<and> dom (metadata post) = {''slug'', ''title'', ''publishedAt''}
         \<and> content post = ''First post''"
    by (auto simp: meta_a_def)
  with read parsed show ?thesis by (intro conjI)
qed

text \<open>
  C6. With a parser that meets the spec's contract, a file that does not begin with the
  header marker parses, without failing, to an empty metadata mapping and the whole file
  as body, and \<^verbatim>\<open>getPostBySlug\<close> on such a file returns a post whose metadata holds only
  the injected \<^verbatim>\<open>slug\<close> and whose content is the whole file text.
\<close>

theorem getPostBySlug_no_header:
  assumes "matter rt = matter_spec parse_header"
    and "readFileSync rt (path_join rt rootDir (slug @ ''.md'')) = Inr fileContents"
    and "\<not> prefix ''---'' fileContents"
  shows "matter rt fileContents = Inr (Map.empty, fileContents)
    \<and> getPostBySlug rt rootDir slug
        = Inr (Some \<lparr>metadata = [''slug'' \<mapsto> JString slug], content = fileContents\<rparr>)"
  using assms by (simp add: getPostBySlug_outcome matter_spec_def)

theorem getPostBySlug_no_header_witness:
  "matter (example_rt\<lparr>matter := matter_spec example_matter\<rparr>) = matter_spec example_matter
   \<and> readFileSync (example_rt\<lparr>matter := matter_spec example_matter\<rparr>)
        (path_join (example_rt\<lparr>matter := matter_spec example_matter\<rparr>) ''notes'' (''plain'' @ ''.md''))
       = Inr ''Just text, no header''
   \<and> \<not> prefix ''---'' ''Just text, no header''
   \<and> getPostBySlug (example_rt\<lparr>matter := matter_spec example_matter\<rparr>) ''notes'' ''plain''
       = Inr (Some \<lparr>metadata = [''slug'' \<mapsto> JString ''plain''],
                     content = ''Just text, no header''\<rparr>)"
proof -
  have parser: "matter (example_rt\<lparr>matter := matter_spec example_matter\<rparr>)
      = matter_spec example_matter"
    by simp
  have read: "readFileSync (example_rt\<lparr>matter := matter_spec example_matter\<rparr>)
        (path_join (example_rt\<lparr>matter := matter_spec example_matter\<rparr>) ''notes'' (''plain'' @ ''.md''))
       = Inr ''Just text, no header''"
    by (simp add: example_rt_def example_readFileSync_def plain_md_def)
  have plain: "\<not> prefix ''---'' ''Just text, no header''"
    by simp
  from getPostBySlug_no_header [OF parser read plain] parser read plain
  show ?thesis by (intro conjI) simp_all
qed

lemma getPostMetadata_slug:
  "getPostMetadata rt rootDir filePath = Inr m \<Longrightarrow>
     m ''slug'' = Some (JString (replace_md_suffix filePath))"
  by (auto simp: getPostMetadata_outcome split: sum.splits)

lemma replace_md_suffix_md:
  assumes "endsWith filePath ''.md''"
  shows "replace_md_suffix filePath @ ''.md'' = filePath"
proof -
  from assms have "drop (length filePath - 3) filePath = ''.md''"
    by (simp add: endsWith_def numeral_3_eq_3)
  with append_take_drop_id [of "length filePath - 3" filePath]
  have "take (length filePath - 3) filePath @ ''.md'' = filePath"
    by simp
  with assms show ?thesis by (simp add: replace_md_suffix_def)
qed

lemma set_Array_slice0: "set (Array_slice0 xs n) \<subseteq> set xs"
  by (cases n) (simp_all add: Let_def set_take_subset)

lemma getPosts_element:
  assumes "getPosts rt rootDir limit = Inr posts" and "p \<in> set posts"
  shows "\<exists>files. readdirSync rt rootDir = Inr files
    \<and> (\<exists>file\<in>set files. endsWith file ''.md'' \<and> getPostMetadata rt rootDir file = Inr p)"
proof -
  from assms(1) obtain files metas sorted where
    listed: "readdirSync rt rootDir = Inr files" and
    mapped: "Array_map (getPostMetadata rt rootDir)
       (filter (\<lambda>file. endsWith file ''.md'') files) = Inr metas" and
    sorted: "Array_sort (newest_first rt) metas = Inr sorted" and
    posts: "posts = (case limit of None \<Rightarrow> sorted
              | Some n \<Rightarrow> if truthy n then Array_slice0 sorted n else sorted)"
    by (rule getPosts_Inr)
  from posts have "set posts \<subseteq> set sorted"
    using set_Array_slice0 [of sorted]
    by (cases limit) (simp_all split: if_splits)
  with assms(2) have "p \<in> set sorted" ..
  then have "p \<in> set metas"
    by (simp add: Array_sort_set [OF sorted])
  from Array_map_element [OF mapped this]
  obtain f where "f \<in> set (filter (\<lambda>file. endsWith file ''.md'') files)"
    and "getPostMetadata rt rootDir f = Inr p" ..
  then have "f \<in> set files \<and> endsWith f ''.md'' \<and> getPostMetadata rt rootDir f = Inr p"
    by simp
  then have "\<exists>file\<in>set files. endsWith file ''.md'' \<and> getPostMetadata rt rootDir file = Inr p"
    by (intro bexI [of _ f]) simp_all
  with listed show ?thesis by (intro exI conjI)
qed

lemma example_getPosts_notes:
  "getPosts example_rt ''notes'' None = Inr [meta_plain, meta_slugged]"
  by (simp add: posts_defs example_defs)

lemma example_getPostBySlug_slugged:
  "getPostBySlug example_rt ''notes'' ''slugged''
     = Inr (Some \<lparr>metadata = meta_slugged, content = ''Body''\<rparr>)"
  by (simp add: posts_defs example_defs)

text \<open>
  C9. The \<^verbatim>\<open>slug\<close> of a post returned by \<^verbatim>\<open>getPostBySlug\<close> is the requested slug, and
  every element of a result of \<^verbatim>\<open>getPosts\<close> is the metadata built from some listed
  \<^verbatim>\<open>.md\<close> file, with \<^verbatim>\<open>slug\<close> the file name without its \<^verbatim>\<open>.md\<close> suffix. The header's
  data is arbitrary here, so this holds also when the header defines \<^verbatim>\<open>slug\<close> itself:
  the injected value replaces it.
\<close>

theorem slug_is_file_name:
  "(\<forall>post. getPostBySlug rt rootDir slug = Inr (Some post)
        \<longrightarrow> metadata post ''slug'' = Some (JString slug))
   \<and> (\<forall>posts. getPosts rt rootDir limit = Inr posts \<longrightarrow>
         (\<forall>p\<in>set posts. \<exists>files. readdirSync rt rootDir = Inr files
            \<and> (\<exists>file\<in>set files. endsWith file ''.md''
                  \<and> getPostMetadata rt rootDir file = Inr p
                  \<and> file = replace_md_suffix file @ ''.md''
                  \<and> p ''slug'' = Some (JString (replace_md_suffix file)))))"
proof (intro conjI allI impI ballI)
  fix post
  assume "getPostBySlug rt rootDir slug = Inr (Some post)"
  then show "metadata post ''slug'' = Some (JString slug)"
    by (auto simp: getPostBySlug_outcome split: sum.splits)
next
  fix posts p
  assume returned: "getPosts rt rootDir limit = Inr posts" and element: "p \<in> set posts"
  from getPosts_element [OF returned element]
  obtain files where listed: "readdirSync rt rootDir = Inr files"
    and built: "\<exists>file\<in>set files. endsWith file ''.md'' \<and> getPostMetadata rt rootDir file = Inr p"
    by blast
  from built obtain f where f: "f \<in> set files" "endsWith f ''.md''"
    "getPostMetadata rt rootDir f = Inr p"
    by blast
  from f(2) have name: "f = replace_md_suffix f @ ''.md''"
    by (simp add: replace_md_suffix_md)
  from f(3) have slug: "p ''slug'' = Some (JString (replace_md_suffix f))"
    by (rule getPostMetadata_slug)
  from f name slug have "\<exists>file\<in>set files. endsWith file ''.md''
                  \<and> getPostMetadata rt rootDir file = Inr p
                  \<and> file = replace_md_suffix file @ ''.md''
                  \<and> p ''slug'' = Some (JString (replace_md_suffix file))"
    by (intro bexI [of _ f] conjI)
  with listed show "\<exists>files. readdirSync rt rootDir = Inr files
            \<and> (\<exists>file\<in>set files. endsWith file ''.md''
                  \<and> getPostMetadata rt rootDir file = Inr p
                  \<and> file = replace_md_suffix file @ ''.md''
                  \<and> p ''slug'' = Some (JString (replace_md_suffix file)))"
    by (intro exI conjI)
qed

theorem slug_is_file_name_witness:
  "matter example_rt slugged_md
     = Inr ([''title'' \<mapsto> JString ''Git notes'', ''slug'' \<mapsto> JString ''custom''], ''Body'')
   \<and> getPostBySlug example_rt ''notes'' ''slugged''
     = Inr (Some \<lparr>metadata = meta_slugged, content = ''Body''\<rparr>)
   \<and> meta_slugged ''slug'' = Some (JString ''slugged'')
   \<and> getPosts example_rt ''notes'' None = Inr [meta_plain, meta_slugged]
   \<and> (\<exists>files. readdirSync example_rt ''notes'' = Inr files
        \<and> (\<exists>file\<in>set files. endsWith file ''.md''
              \<and> getPostMetadata example_rt ''notes'' file = Inr meta_slugged
              \<and> file = replace_md_suffix file @ ''.md''
              \<and> meta_slugged ''slug'' = Some (JString (replace_md_suffix file))))"
proof -
  have header: "matter example_rt slugged_md
     = Inr ([''title'' \<mapsto> JString ''Git notes'', ''slug'' \<mapsto> JString ''custom''], ''Body'')"
    by (simp add: example_defs)
  note rule = slug_is_file_name [of example_rt "''notes''" "''slugged''" None]
  from rule [THEN conjunct1, rule_format, OF example_getPostBySlug_slugged]
  have by_slug: "meta_slugged ''slug'' = Some (JString ''slugged'')"
    by simp
  have "meta_slugged \<in> set [meta_plain, meta_slugged]"
    by simp
  note listed = rule [THEN conjunct2, rule_format, OF example_getPosts_notes this]
  from header example_getPostBySlug_slugged by_slug example_getPosts_notes listed
  show ?thesis by (intro conjI)
qed

lemma three_in_some_order:
  assumes "mset xs = {#a, b, c#}"
  shows "xs \<in> {[a, b, c], [a, c, b], [b, a, c], [b, c, a], [c, a, b], [c, b, a]}"
proof -
  from assms have "size (mset xs) = 3" by simp
  then have "length xs = 3" by simp
  then obtain x y z where xs: "xs = [x, y, z]"
    by (auto simp: numeral_3_eq_3 length_Suc_conv)
  with assms have "add_mset x (add_mset y {#z#}) = add_mset a (add_mset b {#c#})"
    by simp
  then show ?thesis
    unfolding xs by (auto simp: add_eq_conv_ex)
qed

lemma getPostMetadata_read:
  assumes "readFileSync rt (path_join rt rootDir filePath) = Inr fileContents"
    and "matter rt fileContents = Inr (data, body)"
  shows "getPostMetadata rt rootDir filePath
    = Inr (data(''slug'' \<mapsto> JString (replace_md_suffix filePath)))"
  using assms by (simp add: getPostMetadata_outcome)

lemma parsed_publishedAt_slug:
  "parsed_publishedAt rt (data(''slug'' \<mapsto> v)) = parsed_publishedAt rt data"
  by (simp add: parsed_publishedAt_def)

text \<open>
  C7. The store holds exactly \<^verbatim>\<open>a.md\<close>, \<^verbatim>\<open>b.md\<close> and \<^verbatim>\<open>c.md\<close>, listed in any order;
  the \<^verbatim>\<open>publishedAt\<close> of \<^verbatim>\<open>a.md\<close> and of \<^verbatim>\<open>b.md\<close> parse to timestamps \<open>ta\<close> and \<open>tb\<close>
  with \<open>0 < ta < tb\<close> (as 2025-01-01 and 2025-03-01 do), and \<^verbatim>\<open>c.md\<close> has no
  \<^verbatim>\<open>publishedAt\<close>. Then \<^verbatim>\<open>getPosts(root)\<close> returns the metadata of b, a, c in this order
  and \<^verbatim>\<open>getPosts(root, 2)\<close> returns that of b, a.
\<close>

theorem getPosts_three_posts:
  assumes listed: "readdirSync rt rootDir = Inr files"
    and exactly: "mset files = {#''a.md'', ''b.md'', ''c.md''#}"
    and a: "readFileSync rt (path_join rt rootDir ''a.md'') = Inr file_a"
      "matter rt file_a = Inr (data_a, body_a)"
    and b: "readFileSync rt (path_join rt rootDir ''b.md'') = Inr file_b"
      "matter rt file_b = Inr (data_b, body_b)"
    and c: "readFileSync rt (path_join rt rootDir ''c.md'') = Inr file_c"
      "matter rt file_c = Inr (data_c, body_c)"
    and dates: "parsed_publishedAt rt data_a = Inr (Some ta)"
      "parsed_publishedAt rt data_b = Inr (Some tb)"
      "data_c ''publishedAt'' = None"
    and order: "0 < ta" "ta < tb"
    and invalid: "Date_getTime rt (JString '''') = Inr None"
  shows "getPosts rt rootDir None
      = Inr [data_b(''slug'' \<mapsto> JString ''b''), data_a(''slug'' \<mapsto> JString ''a''),
             data_c(''slug'' \<mapsto> JString ''c'')]
    \<and> getPosts rt rootDir (Some (Finite 2))
      = Inr [data_b(''slug'' \<mapsto> JString ''b''), data_a(''slug'' \<mapsto> JString ''a'')]"
proof -
  define ma where "ma = data_a(''slug'' \<mapsto> JString ''a'')"
  define mb where "mb = data_b(''slug'' \<mapsto> JString ''b'')"
  define mc where "mc = data_c(''slug'' \<mapsto> JString ''c'')"
  have built: "getPostMetadata rt rootDir ''a.md'' = Inr ma"
    "getPostMetadata rt rootDir ''b.md'' = Inr mb"
    "getPostMetadata rt rootDir ''c.md'' = Inr mc"
    by (simp_all add: getPostMetadata_read [OF a] getPostMetadata_read [OF b]
        getPostMetadata_read [OF c] replace_md_suffix_def endsWith_def ma_def mb_def mc_def)
  have "parsed_publishedAt rt mc = Inr None"
    using dates(3) by (simp add: mc_def parsed_publishedAt_def)
  then have keys: "publishedAt_key rt ma = Inr ta" "publishedAt_key rt mb = Inr tb"
    "publishedAt_key rt mc = Inr 0"
    using dates(1,2)
    by (simp_all add: publishedAt_key_parsed [OF invalid] ma_def mb_def parsed_publishedAt_slug)
  have sorted: "Array_sort (newest_first rt) metas = Inr [mb, ma, mc]"
    if "metas \<in> {[ma, mb, mc], [ma, mc, mb], [mb, ma, mc], [mb, mc, ma], [mc, ma, mb], [mc, mb, ma]}"
    for metas
    using that order by (auto simp: newest_first_def keys)
  from exactly have "files \<in> {[''a.md'', ''b.md'', ''c.md''], [''a.md'', ''c.md'', ''b.md''],
      [''b.md'', ''a.md'', ''c.md''], [''b.md'', ''c.md'', ''a.md''],
      [''c.md'', ''a.md'', ''b.md''], [''c.md'', ''b.md'', ''a.md'']}"
    by (rule three_in_some_order)
  then have "\<exists>metas. Array_map (getPostMetadata rt rootDir)
        (filter (\<lambda>file. endsWith file ''.md'') files) = Inr metas
      \<and> metas \<in> {[ma, mb, mc], [ma, mc, mb], [mb, ma, mc], [mb, mc, ma], [mc, ma, mb], [mc, mb, ma]}"
    by (auto simp: endsWith_def built)
  then obtain metas where "Array_map (getPostMetadata rt rootDir)
        (filter (\<lambda>file. endsWith file ''.md'') files) = Inr metas"
    and "Array_sort (newest_first rt) metas = Inr [mb, ma, mc]"
    using sorted by blast
  with listed have "getPosts rt rootDir None = Inr [mb, ma, mc]"
    and "getPosts rt rootDir (Some (Finite 2)) = Inr [mb, ma]"
    by (simp_all add: getPosts_def truncate_toward_zero_def)
  then show ?thesis
    by (simp add: ma_def mb_def mc_def)
qed

theorem getPosts_three_posts_witness:
  "readdirSync example_rt ''data'' = Inr [''a.md'', ''b.md'', ''c.md'']
   \<and> parsed_publishedAt example_rt
        [''title'' \<mapsto> JString ''Alpha'', ''publishedAt'' \<mapsto> JOther 1735689600000]
       = Inr (Some 1735689600000)
   \<and> parsed_publishedAt example_rt
        [''title'' \<mapsto> JString ''Beta'', ''publishedAt'' \<mapsto> JOther 1740787200000]
       = Inr (Some 1740787200000)
   \<and> getPosts example_rt ''data'' None = Inr [meta_b, meta_a, meta_c]
   \<and> getPosts example_rt ''data'' (Some (Finite 2)) = Inr [meta_b, meta_a]"
proof -
  have listed: "readdirSync example_rt ''data'' = Inr [''a.md'', ''b.md'', ''c.md'']"
    by (simp add: example_defs)
  have exactly: "mset [''a.md'', ''b.md'', ''c.md''] = {#''a.md'', ''b.md'', ''c.md''#}"
    by simp
  have a: "readFileSync example_rt (path_join example_rt ''data'' ''a.md'') = Inr a_md"
    "matter example_rt a_md
      = Inr ([''title'' \<mapsto> JString ''Alpha'', ''publishedAt'' \<mapsto> JOther 1735689600000],
             ''First post'')"
    by (simp_all add: example_rt_def example_readFileSync_def example_matter_def)
  have b: "readFileSync example_rt (path_join example_rt ''data'' ''b.md'') = Inr b_md"
    "matter example_rt b_md
      = Inr ([''title'' \<mapsto> JString ''Beta'', ''publishedAt'' \<mapsto> JOther 1740787200000],
             ''Second post'')"
    by (simp_all add: example_rt_def example_readFileSync_def example_matter_def a_md_def b_md_def)
  have c: "readFileSync example_rt (path_join example_rt ''data'' ''c.md'') = Inr c_md"
    "matter example_rt c_md = Inr ([''title'' \<mapsto> JString ''Gamma''], ''Undated post'')"
    by (simp_all add: example_rt_def example_readFileSync_def example_matter_def
        a_md_def b_md_def c_md_def)
  have dates: "parsed_publishedAt example_rt
        [''title'' \<mapsto> JString ''Alpha'', ''publishedAt'' \<mapsto> JOther 1735689600000]
       = Inr (Some 1735689600000)"
    "parsed_publishedAt example_rt
        [''title'' \<mapsto> JString ''Beta'', ''publishedAt'' \<mapsto> JOther 1740787200000]
       = Inr (Some 1740787200000)"
    "[''title'' \<mapsto> JString ''Gamma''] ''publishedAt'' = (None :: int jsval option)"
    by (simp_all add: parsed_publishedAt_def example_rt_def)
  have order: "(0 :: int) < 1735689600000" "(1735689600000 :: int) < 1740787200000"
    by simp_all
  have invalid: "Date_getTime example_rt (JString '''') = Inr None"
    by (simp add: example_rt_def)
  note scenario = getPosts_three_posts [OF listed exactly a b c dates order invalid]
  have "getPosts example_rt ''data'' None = Inr [meta_b, meta_a, meta_c]"
    unfolding meta_a_def meta_b_def meta_c_def by (rule scenario [THEN conjunct1])
  moreover have "getPosts example_rt ''data'' (Some (Finite 2)) = Inr [meta_b, meta_a]"
    unfolding meta_a_def meta_b_def by (rule scenario [THEN conjunct2])
  ultimately have "getPosts example_rt ''data'' None = Inr [meta_b, meta_a, meta_c]"
    and "getPosts example_rt ''data'' (Some (Finite 2)) = Inr [meta_b, meta_a]"
    by this+
  with listed dates(1,2) show ?thesis by (intro conjI)
qed

lemma String_includes_sublist: "String_includes s q \<longleftrightarrow> sublist q s"
  by (induction s) (simp_all add: sublist_Cons_right)

lemma Array_filter_total:
  "(\<And>x. x \<in> set xs \<Longrightarrow> f x = Inr (g x)) \<Longrightarrow> Array_filter f xs = Inr (filter g xs)"
  by (induction xs) auto

lemma Array_filter_kept:
  "Array_filter f xs = Inr ys \<Longrightarrow> y \<in> set ys \<Longrightarrow> f y = Inr True"
  by (induction xs arbitrary: ys) (auto split: sum.splits if_splits)

lemma title_matches_typed:
  "title_typed v \<Longrightarrow> title_matches toLowerCase query v = Inr (title_contains toLowerCase query v)"
  by (cases "(toLowerCase, query, v)" rule: title_matches.cases)
     (simp_all add: String_includes_sublist)

lemma title_matches_string:
  "title_matches toLowerCase query v = Inr True \<Longrightarrow> title_is_string v"
  by (cases "(toLowerCase, query, v)" rule: title_matches.cases) simp_all

lemma title_matches_empty_query:
  "toLowerCase [] = [] \<Longrightarrow> title_typed v \<Longrightarrow>
     title_matches toLowerCase [] v = Inr (title_is_string v)"
  by (cases "(toLowerCase, [] :: string, v)" rule: title_matches.cases)
     (simp_all add: String_includes_sublist)

lemma filtered_typed:
  assumes "list_all (\<lambda>p. title_typed (p ''title'')) posts"
  shows "filtered toLowerCase posts query
    = Inr (filter (\<lambda>p. title_contains toLowerCase query (p ''title'')) posts)"
  unfolding filtered_def
proof (rule Array_filter_total)
  fix p
  assume "p \<in> set posts"
  with assms have "title_typed (p ''title'')"
    by (simp add: list_all_iff)
  then show "title_matches toLowerCase query (p ''title'')
      = Inr (title_contains toLowerCase query (p ''title''))"
    by (rule title_matches_typed)
qed

text \<open>
  C8. On a list of posts whose titles have the declared type, the search filter returns
  exactly the posts whose title contains the query as a case-insensitive substring, in
  their original order. The test of a post reads its \<^verbatim>\<open>title\<close> only: a list with the
  same titles in the same positions, whatever its other fields, gives a result with the
  same titles.
\<close>

theorem search_filters_by_title:
  assumes "list_all (\<lambda>p. title_typed (p ''title'')) posts"
  shows "filtered toLowerCase posts query
      = Inr (filter (\<lambda>p. title_contains toLowerCase query (p ''title'')) posts)
    \<and> subseq (filter (\<lambda>p. title_contains toLowerCase query (p ''title'')) posts) posts
    \<and> (\<forall>others. map (\<lambda>p. p ''title'') others = map (\<lambda>p. p ''title'') posts \<longrightarrow>
          map_sum id (map (\<lambda>p. p ''title'')) (filtered toLowerCase others query)
          = map_sum id (map (\<lambda>p. p ''title'')) (filtered toLowerCase posts query))"
proof (intro conjI allI impI)
  show "filtered toLowerCase posts query
      = Inr (filter (\<lambda>p. title_contains toLowerCase query (p ''title'')) posts)"
    using assms by (rule filtered_typed)
next
  show "subseq (filter (\<lambda>p. title_contains toLowerCase query (p ''title'')) posts) posts"
    by (rule subseq_filter_left)
next
  fix others :: "'a PostMetadata list"
  assume same: "map (\<lambda>p. p ''title'') others = map (\<lambda>p. p ''title'') posts"
  have "list_all title_typed (map (\<lambda>p. p ''title'') posts)"
    using assms by (simp add: list_all_iff)
  with same have "list_all title_typed (map (\<lambda>p. p ''title'') others)"
    by simp
  then have typed: "list_all (\<lambda>p. title_typed (p ''title'')) others"
    by (simp add: list_all_iff)
  have "map (\<lambda>p. p ''title'') (filter (\<lambda>p. title_contains toLowerCase query (p ''title'')) xs)
      = filter (title_contains toLowerCase query) (map (\<lambda>p. p ''title'') xs)"
    for xs :: "'a PostMetadata list"
    by (simp add: filter_map comp_def)
  with same show "map_sum id (map (\<lambda>p. p ''title'')) (filtered toLowerCase others query)
          = map_sum id (map (\<lambda>p. p ''title'')) (filtered toLowerCase posts query)"
    by (simp add: filtered_typed [OF assms] filtered_typed [OF typed])
qed

lemma example_search:
  "filtered ascii_toLowerCase search_posts ''GIT'' = Inr [search_posts ! 0]"
  "filtered ascii_toLowerCase search_posts [] = Inr [search_posts ! 0, search_posts ! 1, search_posts ! 3]"
  by (simp_all add: filtered_def search_posts_def ascii_toLowerCase_def)

lemma example_search_typed: "list_all (\<lambda>p. title_typed (p ''title'')) search_posts"
  by (simp add: search_posts_def)

theorem search_filters_by_title_witness:
  "list_all (\<lambda>p. title_typed (p ''title'')) search_posts
   \<and> filtered ascii_toLowerCase search_posts ''GIT''
       = Inr (filter (\<lambda>p. title_contains ascii_toLowerCase ''GIT'' (p ''title'')) search_posts)
   \<and> filter (\<lambda>p. title_contains ascii_toLowerCase ''GIT'' (p ''title'')) search_posts
       = [search_posts ! 0]
   \<and> search_posts ! 0 = [''title'' \<mapsto> JString ''Basic Git Workflow'', ''slug'' \<mapsto> JString ''git_gist'']"
proof -
  note kept = search_filters_by_title [OF example_search_typed, of ascii_toLowerCase "''GIT''",
      THEN conjunct1]
  from kept have "filter (\<lambda>p. title_contains ascii_toLowerCase ''GIT'' (p ''title'')) search_posts
       = [search_posts ! 0]"
    by (simp add: example_search)
  moreover have "search_posts ! 0
      = [''title'' \<mapsto> JString ''Basic Git Workflow'', ''slug'' \<mapsto> JString ''git_gist'']"
    by (simp add: search_posts_def)
  ultimately show ?thesis
    using example_search_typed kept by (intro conjI)
qed

text \<open>
  C10. Whatever the query, no post of the filtered output lacks a \<^verbatim>\<open>title\<close> field. On
  posts whose titles have the declared type the filter returns, and for the empty query
  it keeps exactly the posts whose title is a string (the empty string included), so an
  absent title is not read as an empty title.
\<close>

theorem untitled_post_excluded:
  "(\<forall>kept. filtered toLowerCase posts query = Inr kept \<longrightarrow> (\<forall>p\<in>set kept. p ''title'' \<noteq> None))
   \<and> (list_all (\<lambda>p. title_typed (p ''title'')) posts \<longrightarrow>
         (\<exists>kept. filtered toLowerCase posts query = Inr kept))
   \<and> (list_all (\<lambda>p. title_typed (p ''title'')) posts \<and> toLowerCase [] = [] \<longrightarrow>
         filtered toLowerCase posts [] = Inr (filter (\<lambda>p. title_is_string (p ''title'')) posts))"
proof (intro conjI allI impI ballI)
  fix kept p
  assume "filtered toLowerCase posts query = Inr kept" and "p \<in> set kept"
  then have "title_matches toLowerCase query (p ''title'') = Inr True"
    unfolding filtered_def by (rule Array_filter_kept)
  then have "title_is_string (p ''title'')"
    by (rule title_matches_string)
  then show "p ''title'' \<noteq> None"
    by (cases "p ''title''") simp_all
next
  assume "list_all (\<lambda>p. title_typed (p ''title'')) posts"
  then show "\<exists>kept. filtered toLowerCase posts query = Inr kept"
    by (simp add: filtered_typed)
next
  assume a: "list_all (\<lambda>p. title_typed (p ''title'')) posts \<and> toLowerCase [] = []"
  show "filtered toLowerCase posts [] = Inr (filter (\<lambda>p. title_is_string (p ''title'')) posts)"
    unfolding filtered_def
  proof (rule Array_filter_total)
    fix p
    assume "p \<in> set posts"
    with a have "title_typed (p ''title'')"
      by (simp add: list_all_iff)
    with a show "title_matches toLowerCase [] (p ''title'') = Inr (title_is_string (p ''title''))"
      by (simp add: title_matches_empty_query)
  qed
qed

theorem untitled_post_excluded_witness:
  "(search_posts ! 2) ''title'' = None
   \<and> filtered ascii_toLowerCase search_posts ''GIT'' = Inr [search_posts ! 0]
   \<and> list_all (\<lambda>p. p ''title'' \<noteq> None) [search_posts ! 0]
   \<and> list_all (\<lambda>p. title_typed (p ''title'')) search_posts
   \<and> ascii_toLowerCase [] = []
   \<and> filtered ascii_toLowerCase search_posts []
       = Inr (filter (\<lambda>p. title_is_string (p ''title'')) search_posts)
   \<and> filter (\<lambda>p. title_is_string (p ''title'')) search_posts
       = [search_posts ! 0, search_posts ! 1, search_posts ! 3]
   \<and> (search_posts ! 3) ''title'' = Some (JString [])"
proof -
  note rule = untitled_post_excluded [of ascii_toLowerCase search_posts]
  have untitled: "(search_posts ! 2) ''title'' = None"
    and empty_title: "(search_posts ! 3) ''title'' = Some (JString [])"
    by (simp_all add: search_posts_def)
  have lower: "ascii_toLowerCase [] = []"
    by (simp add: ascii_toLowerCase_def)
  from rule [of "''GIT''", THEN conjunct1, rule_format, OF example_search(1)]
  have titled: "list_all (\<lambda>p. p ''title'' \<noteq> None) [search_posts ! 0]"
    by simp
  note all = rule [of "[]", THEN conjunct2, THEN conjunct2, rule_format,
      OF conjI, OF example_search_typed lower]
  from all have kept: "filter (\<lambda>p. title_is_string (p ''title'')) search_posts
       = [search_posts ! 0, search_posts ! 1, search_posts ! 3]"
    by (simp add: example_search)
  from untitled example_search(1) titled example_search_typed lower all kept empty_title
  show ?thesis by (intro conjI)
qed

end
